theory Spec2Isabelle
  imports Main
begin

unbundle bit_operations_syntax

section \<open>Event listener binding and dispatch (render3/instructions/listener.ts)\<close>

subsection \<open>Data model\<close>

text \<open>
  Modelled from the spec: the enum \<open>TNodeType\<close> of interfaces/node is not among the
  sources. The element-like node types are element, container and element container, the
  three members \<open>listenerInternal\<close> names; every other node type is \<open>OtherNodeType\<close>.
\<close>

datatype TNodeType = Element | Container | ElementContainer | OtherNodeType

text \<open>
  \<open>PropertyAliasValue\<close>: the flat array read by the output loop in strides of three,
  kept as the list of its triples (directive index, public name, minified name).
  \<open>PropertyAliases\<close> maps a public name to its triples; it is kept as the list of
  its entries, read with \<open>map_of\<close>.
\<close>

type_synonym PropertyAliasValue = "(nat \<times> string \<times> string) list"
type_synonym PropertyAliases = "(string \<times> PropertyAliasValue) list"

text \<open>
  \<open>tNode.outputs\<close> is \<open>undefined\<close> until computed (\<open>None\<close>), then \<open>null\<close>
  (\<open>Some None\<close>) or the alias table.
\<close>

record TNode =
  type :: TNodeType
  index :: nat
  flags :: nat
  outputs :: "PropertyAliases option option"

text \<open>
  Function and object identities. A handler passed to the instruction is a function
  object \<open>ListenerFn n\<close>. \<open>wrapListener\<close> creates a new closure on every call:
  \<open>WrapListenerIn k tNode listenerFn wrapWithPreventDefault\<close>, with \<open>k\<close> its
  allocation number and the captured variables beside it. The node is captured as it is
  at the call: the closure reads its \<open>flags\<close> and \<open>index\<close>, which this file never
  writes. The captured view is the view of the state, see below. The other objects are
  opaque to this file: the closure \<open>idxOrTargetGetter\<close>, the disposer a renderer
  returns, the handle a subscription returns, anything else.
\<close>

datatype ref =
    ListenerFn nat
  | WrapListenerIn nat TNode ref bool
  | TargetGetter nat
  | CleanupFn nat
  | Subscription nat
  | OtherObject nat

datatype jsval = Undefined | Null | JBool bool | JNum int | JStr string | Ref ref

text \<open>
  Modelled from the spec: the type \<open>Renderer3\<close> of interfaces/renderer is not among the
  sources. A renderer is procedural (it exposes \<open>listen\<close>) or it is the direct one, where
  listeners are attached with \<open>addEventListener\<close>.
\<close>

datatype Renderer3 = ProceduralRenderer3 nat | ObjectOrientedRenderer3

text \<open>
  A directive instance: the name of its constructor and its properties. A property is a
  subscribable stream (\<open>Observable s\<close>, the stream \<open>s\<close>) or anything else; a missing
  property reads as \<open>undefined\<close>.
\<close>

datatype member = Observable nat | NotObservable

record directive =
  constructor_name :: string
  members :: "string \<rightharpoonup> member"

record TView =
  firstTemplatePass :: bool
  cleanup :: "jsval list option"

record LView =
  lview_id :: nat
  TVIEW :: TView
  FLAGS :: nat
  RENDERER :: Renderer3
  CLEANUP :: "jsval list option"
  slots :: "directive option list"

datatype error = TypeError | AssertionError | Error string

text \<open>
  The calls this file makes to its collaborators, in the order they happen: the renderer,
  the DOM, directive outputs, \<open>markViewDirty\<close>, \<open>handleError\<close>, the handlers and the
  event object.
\<close>

type_synonym Event = nat

datatype EventTarget = RElement nat | GlobalTarget nat

datatype listen_target = TargetName string | TargetRef EventTarget

datatype view = ThisLView nat | ComponentView nat nat

datatype effect =
    RendererListen Renderer3 listen_target string ref
  | AddEventListener EventTarget string ref bool
  | OutputSubscribe nat ref
  | MarkViewDirty view
  | HandleError nat jsval
  | Invoke ref Event
  | PreventDefault Event
  | SetReturnValue Event bool

datatype outcome = Returns jsval | Throws jsval

text \<open>
  The state the instruction works on: the current view and node (\<open>getLView()\<close>,
  \<open>getPreviousOrParentTNode()\<close>), the \<open>__ngNextListenerFn__\<close> property of every
  function object (absent is \<open>None\<close>; the file stores a handler there or copies the
  property, so its value is a function or absent), the number of objects allocated so
  far, \<open>ngDevMode\<close> (\<open>None\<close> in production, else its counter
  \<open>rendererAddEventListener\<close>) and the calls made so far.
\<close>

record state =
  getLView :: LView
  getPreviousOrParentTNode :: TNode
  ngNextListenerFn :: "ref \<rightharpoonup> ref"
  allocated :: nat
  ngDevMode :: "nat option"
  effects :: "effect list"

text \<open>
  What the file imports and does not define: what a handler does when called, the two
  flag masks, \<open>generatePropertyAliases\<close> and \<open>loadComponentRenderer\<close>. A handler
  returns a value or throws; it is taken not to bind listeners itself.
\<close>

record env =
  handler :: "ref \<Rightarrow> Event \<Rightarrow> outcome"
  TNodeFlags_isComponent :: nat
  LViewFlags_ManualOnPush :: nat
  generatePropertyAliases :: "TNode \<Rightarrow> PropertyAliases option"
  loadComponentRenderer :: "TNode \<Rightarrow> LView \<Rightarrow> Renderer3"

text \<open>
  What a \<open>GlobalTargetResolver\<close> returns: a name (the empty string is falsy) and a
  target (\<open>None\<close> when it is missing).
\<close>

record resolved =
  resolved_name :: string
  resolved_target :: "EventTarget option"

type_synonym GlobalTargetResolver = "EventTarget \<Rightarrow> resolved"

subsection \<open>The coalescing lookup\<close>

text \<open>Reading an array element: \<open>undefined\<close> out of range.\<close>

definition arr_get :: "jsval list \<Rightarrow> nat \<Rightarrow> jsval" where
  "arr_get xs i = (if i < length xs then xs ! i else Undefined)"

text \<open>
  \<open>lCleanup.length > x ? lCleanup[x] : null\<close> for the value \<open>x\<close> read from the
  template array. A number is compared as such, and a negative one names no element.
  \<open>null\<close> and booleans convert to 0 and 1 and name no element; \<open>undefined\<close> is NaN,
  and so are, in this model, strings and objects.
\<close>

definition lookup_lCleanup :: "jsval list \<Rightarrow> jsval \<Rightarrow> jsval" where
  "lookup_lCleanup lCleanup x =
     (case x of
        JNum n \<Rightarrow> (if int (length lCleanup) > n
                   then (if 0 \<le> n then lCleanup ! nat n else Undefined) else Null)
      | Null \<Rightarrow> (if length lCleanup > 0 then Undefined else Null)
      | JBool b \<Rightarrow> (if length lCleanup > (if b then 1 else 0) then Undefined else Null)
      | _ \<Rightarrow> Null)"

text \<open>
  The loop of \<open>findExistingListener\<close>, from index \<open>i\<close>: the header adds 2 and the body
  adds 2 more on every entry that does not match.
\<close>

function findExistingListener_loop ::
  "jsval list \<Rightarrow> jsval list option \<Rightarrow> string \<Rightarrow> nat \<Rightarrow> nat \<Rightarrow> error + jsval" where
  "findExistingListener_loop tCleanup lCleanup eventName tNodeIdx i =
     (if i + 1 < length tCleanup then
        (if tCleanup ! i = JStr eventName \<and> tCleanup ! (i + 1) = JNum (int tNodeIdx) then
           (case lCleanup of
              None \<Rightarrow> Inl TypeError
            | Some lc \<Rightarrow> Inr (lookup_lCleanup lc (arr_get tCleanup (i + 2))))
         else findExistingListener_loop tCleanup lCleanup eventName tNodeIdx (i + 2 + 2))
      else Inr Null)"
  by pat_completeness auto
termination
  by (relation "measure (\<lambda>(tCleanup, lCleanup, eventName, tNodeIdx, i). length tCleanup - i)") auto

declare findExistingListener_loop.simps [simp del]

definition findExistingListener :: "LView \<Rightarrow> string \<Rightarrow> nat \<Rightarrow> error + jsval" where
  "findExistingListener lView eventName tNodeIdx =
     (case cleanup (TVIEW lView) of
        None \<Rightarrow> Inr Null
      | Some tCleanup \<Rightarrow> findExistingListener_loop tCleanup (CLEANUP lView) eventName tNodeIdx 0)"

subsection \<open>Dispatch: the wrapped listener\<close>

definition executeListenerWithErrorHandling ::
  "env \<Rightarrow> LView \<Rightarrow> ref \<Rightarrow> Event \<Rightarrow> effect list \<times> jsval" where
  "executeListenerWithErrorHandling env lv listenerFn e =
     (case handler env listenerFn e of
        Returns v \<Rightarrow> ([Invoke listenerFn e], v)
      | Throws err \<Rightarrow> ([Invoke listenerFn e, HandleError (lview_id lv) err], JBool False))"

text \<open>
  The \<open>while (nextListenerFn)\<close> loop. It follows \<open>__ngNextListenerFn__\<close> until the
  property is absent, so it does not return on a cyclic chain: the value is \<open>None\<close> then.
\<close>

partial_function (option) coalesced_loop ::
  "env \<Rightarrow> LView \<Rightarrow> (ref \<rightharpoonup> ref) \<Rightarrow> Event \<Rightarrow> ref option \<Rightarrow> effect list \<Rightarrow> jsval
     \<Rightarrow> (effect list \<times> jsval) option" where
  "coalesced_loop env lv nxt e nextListenerFn trace result =
     (case nextListenerFn of
        None \<Rightarrow> Some (trace, result)
      | Some f \<Rightarrow>
          coalesced_loop env lv nxt e (nxt f)
            (trace @ fst (executeListenerWithErrorHandling env lv f e))
            (snd (executeListenerWithErrorHandling env lv f e)))"

declare coalesced_loop.simps [code]

text \<open>
  Modelled from the spec: \<open>getComponentViewByIndex\<close> of util/view_utils is not among the
  sources; it is the view a component host owns, which is not the enclosing view.
\<close>

definition getComponentViewByIndex :: "nat \<Rightarrow> LView \<Rightarrow> view" where
  "getComponentViewByIndex i lv = ComponentView i (lview_id lv)"

text \<open>
  The body of the closure \<open>WrapListenerIn k tNode listenerFn wrapWithPreventDefault\<close>
  called with event \<open>e\<close> in state \<open>st\<close>. The result is \<open>None\<close> when the loop over
  the chain does not end, else the calls made and the value returned.
\<close>

definition wrapListenerIn_markDirtyAndPreventDefault ::
  "env \<Rightarrow> state \<Rightarrow> nat \<Rightarrow> TNode \<Rightarrow> ref \<Rightarrow> bool \<Rightarrow> Event \<Rightarrow> (effect list \<times> jsval) option" where
  "wrapListenerIn_markDirtyAndPreventDefault env st k tn listenerFn wrapWithPreventDefault e =
     (let lv = getLView st;
          startView = (if flags tn AND TNodeFlags_isComponent env \<noteq> 0
                       then getComponentViewByIndex (index tn) lv
                       else ThisLView (lview_id lv));
          marked = (if FLAGS lv AND LViewFlags_ManualOnPush env = 0
                    then [MarkViewDirty startView] else []);
          first = executeListenerWithErrorHandling env lv listenerFn e
      in case coalesced_loop env lv (ngNextListenerFn st) e
                (ngNextListenerFn st (WrapListenerIn k tn listenerFn wrapWithPreventDefault))
                (marked @ fst first) (snd first) of
           None \<Rightarrow> None
         | Some (trace, result) \<Rightarrow>
             (if wrapWithPreventDefault \<and> result = JBool False
              then Some (trace @ [PreventDefault e, SetReturnValue e False], result)
              else Some (trace, result)))"

subsection \<open>Installing a listener\<close>

text \<open>
  Modelled from the spec: \<open>getCleanup\<close> of ./shared is not among the sources; the
  view's cleanup list is created lazily on first use.
\<close>

definition getCleanup :: "LView \<Rightarrow> jsval list \<times> LView" where
  "getCleanup v = (case CLEANUP v of Some c \<Rightarrow> (c, v) | None \<Rightarrow> ([], v\<lparr>CLEANUP := Some []\<rparr>))"

text \<open>
  Modelled from the spec: \<open>isProceduralRenderer\<close> of interfaces/renderer is not among
  the sources; a procedural renderer is the one that exposes \<open>listen\<close>.
\<close>

fun isProceduralRenderer :: "Renderer3 \<Rightarrow> bool" where
  "isProceduralRenderer (ProceduralRenderer3 r) = True"
| "isProceduralRenderer ObjectOrientedRenderer3 = False"

text \<open>
  Modelled from the spec: \<open>isObservable\<close> of util/lang is not among the sources; it
  holds of a value that exposes a subscribable stream.
\<close>

fun isObservable :: "member option \<Rightarrow> bool" where
  "isObservable (Some (Observable s)) = True"
| "isObservable (Some NotObservable) = False"
| "isObservable None = False"

text \<open>\<open>lCleanup.push(...)\<close>, on the array \<open>getCleanup\<close> returned.\<close>

definition lCleanup_push :: "jsval list \<Rightarrow> state \<Rightarrow> state" where
  "lCleanup_push xs st =
     st\<lparr>getLView := (getLView st)\<lparr>CLEANUP := Some (fst (getCleanup (getLView st)) @ xs)\<rparr>\<rparr>"

text \<open>
  \<open>tCleanup && tCleanup.push(...)\<close>: \<open>tCleanup\<close> is \<open>tView.cleanup\<close> on the first
  template pass and \<open>false\<close> afterwards.
\<close>

definition tCleanup_push :: "jsval list \<Rightarrow> state \<Rightarrow> state" where
  "tCleanup_push xs st =
     (let lv = getLView st; tv = TVIEW lv
      in if firstTemplatePass tv
         then st\<lparr>getLView := lv\<lparr>TVIEW := tv\<lparr>cleanup :=
                  Some ((case cleanup tv of None \<Rightarrow> [] | Some c \<Rightarrow> c) @ xs)\<rparr>\<rparr>\<rparr>
         else st)"

definition emit :: "effect \<Rightarrow> state \<Rightarrow> state" where
  "emit x st = st\<lparr>effects := effects st @ [x]\<rparr>"

text \<open>\<open>ngDevMode && ngDevMode.rendererAddEventListener++\<close>\<close>

definition count_rendererAddEventListener :: "state \<Rightarrow> state" where
  "count_rendererAddEventListener st = st\<lparr>ngDevMode := map_option Suc (ngDevMode st)\<rparr>"

definition wrapListener :: "TNode \<Rightarrow> ref \<Rightarrow> bool \<Rightarrow> state \<Rightarrow> ref \<times> state" where
  "wrapListener tn listenerFn wrapWithPreventDefault st =
     (WrapListenerIn (allocated st) tn listenerFn wrapWithPreventDefault,
      st\<lparr>allocated := Suc (allocated st)\<rparr>)"

text \<open>
  The branch \<open>existingListener !== null\<close>: the two assignments to
  \<open>__ngNextListenerFn__\<close>. Reading a property of \<open>undefined\<close> throws; on any other
  value that is not an object the read gives \<open>undefined\<close> and the write throws.
\<close>

definition attach_coalesced :: "jsval \<Rightarrow> ref \<Rightarrow> state \<Rightarrow> (error \<times> state) + (ref \<times> state)" where
  "attach_coalesced existingListener listenerFn st =
     (case existingListener of
        Ref r \<Rightarrow>
          Inr (listenerFn,
               st\<lparr>ngNextListenerFn :=
                   ((ngNextListenerFn st)(listenerFn := ngNextListenerFn st r))(r \<mapsto> listenerFn)\<rparr>)
      | Undefined \<Rightarrow> Inl (TypeError, st)
      | _ \<Rightarrow> Inl (TypeError, st\<lparr>ngNextListenerFn := (ngNextListenerFn st)(listenerFn := None)\<rparr>))"

text \<open>
  Lines 149 to 154: wrap, register with the procedural renderer, record the wrapper and
  the disposer the renderer returned. The result is the wrapper.
\<close>

definition listen_with_renderer ::
  "Renderer3 \<Rightarrow> listen_target \<Rightarrow> string \<Rightarrow> ref \<Rightarrow> jsval \<Rightarrow> nat \<Rightarrow> state \<Rightarrow> ref \<times> state" where
  "listen_with_renderer renderer nameOrTarget eventName listenerFn idxOrTargetGetter lCleanupIndex st =
     (let w = fst (wrapListener (getPreviousOrParentTNode st) listenerFn False st);
          st1 = snd (wrapListener (getPreviousOrParentTNode st) listenerFn False st);
          st2 = emit (RendererListen renderer nameOrTarget eventName w) st1;
          cleanupFn = Ref (CleanupFn (allocated st2));
          st3 = count_rendererAddEventListener (st2\<lparr>allocated := Suc (allocated st2)\<rparr>);
          st4 = lCleanup_push [Ref w, cleanupFn] st3
      in (w, tCleanup_push
               [JStr eventName, idxOrTargetGetter, JNum (int lCleanupIndex),
                JNum (int lCleanupIndex + 1)] st4))"

text \<open>Lines 158 to 163: wrap and attach to the target directly.\<close>

definition addEventListener_to ::
  "EventTarget \<Rightarrow> string \<Rightarrow> ref \<Rightarrow> bool \<Rightarrow> jsval \<Rightarrow> nat \<Rightarrow> state \<Rightarrow> ref \<times> state" where
  "addEventListener_to target eventName listenerFn useCapture idxOrTargetGetter lCleanupIndex st =
     (let w = fst (wrapListener (getPreviousOrParentTNode st) listenerFn True st);
          st1 = snd (wrapListener (getPreviousOrParentTNode st) listenerFn True st);
          st2 = count_rendererAddEventListener
                  (emit (AddEventListener target eventName w useCapture) st1);
          st3 = lCleanup_push [Ref w] st2
      in (w, tCleanup_push
               [JStr eventName, idxOrTargetGetter, JNum (int lCleanupIndex),
                JBool useCapture] st3))"

text \<open>
  The branch \<open>tNode.type === TNodeType.Element\<close> of \<open>listenerInternal\<close>. It returns
  the value of the variable \<open>listenerFn\<close>, which the branch reassigns when it wraps.
\<close>

definition addNativeListener ::
  "string \<Rightarrow> ref \<Rightarrow> bool \<Rightarrow> GlobalTargetResolver option \<Rightarrow> (TNode \<Rightarrow> LView \<Rightarrow> Renderer3) option
     \<Rightarrow> state \<Rightarrow> (error \<times> state) + (ref \<times> state)" where
  "addNativeListener eventName listenerFn useCapture eventTargetResolver loadRendererFn st0 =
     (let tn = getPreviousOrParentTNode st0;
          native = RElement (index tn);
          res = (case eventTargetResolver of
                   Some resolver \<Rightarrow> resolver native
                 | None \<Rightarrow> \<lparr>resolved_name = [], resolved_target = None\<rparr>);
          target = (case resolved_target res of Some t \<Rightarrow> t | None \<Rightarrow> native);
          renderer = (case loadRendererFn of
                        Some load \<Rightarrow> load tn (getLView st0)
                      | None \<Rightarrow> RENDERER (getLView st0));
          st1 = st0\<lparr>getLView := snd (getCleanup (getLView st0))\<rparr>;
          lCleanupIndex = length (fst (getCleanup (getLView st0)));
          idxOrTargetGetter = (case eventTargetResolver of
                                 Some resolver \<Rightarrow> Ref (TargetGetter (allocated st1))
                               | None \<Rightarrow> JNum (int (index tn)));
          st2 = (case eventTargetResolver of
                   Some resolver \<Rightarrow> st1\<lparr>allocated := Suc (allocated st1)\<rparr>
                 | None \<Rightarrow> st1)
      in if isProceduralRenderer renderer then
           (case (case eventTargetResolver of
                    Some resolver \<Rightarrow> Inr Null
                  | None \<Rightarrow> findExistingListener (getLView st2) eventName (index tn)) of
              Inl err \<Rightarrow> Inl (err, st2)
            | Inr existingListener \<Rightarrow>
                if existingListener \<noteq> Null then attach_coalesced existingListener listenerFn st2
                else Inr (listen_with_renderer renderer
                            (if resolved_name res \<noteq> [] then TargetName (resolved_name res)
                             else TargetRef target)
                            eventName listenerFn idxOrTargetGetter lCleanupIndex st2))
         else Inr (addEventListener_to target eventName listenerFn useCapture idxOrTargetGetter
                     lCleanupIndex st2))"

text \<open>
  The loop over the outputs that match the event name. \<open>lView[index]\<close> is the
  directive instance; \<open>assertDataInRange\<close> guards the index in dev mode only, and a
  slot without an instance makes the property read throw. With the check of
  \<open>isObservable\<close> skipped in production, \<open>output.subscribe\<close> on a value that is no
  stream throws a type error.
\<close>

definition not_initialized :: "string \<Rightarrow> string \<Rightarrow> string" where
  "not_initialized minifiedName ctor =
     ''@Output '' @ minifiedName @ '' not initialized in '' @ [CHR 0x27] @ ctor @ [CHR 0x27] @ ''.''"

text \<open>Lines 192 to 195: one subscription and its two cleanup records.\<close>

definition subscribe_output :: "string \<Rightarrow> ref \<Rightarrow> nat \<Rightarrow> state \<Rightarrow> state" where
  "subscribe_output eventName listenerFn s st =
     (let st1 = emit (OutputSubscribe s listenerFn) st;
          subscription = Ref (Subscription (allocated st1));
          st2 = st1\<lparr>allocated := Suc (allocated st1)\<rparr>;
          idx = length (fst (getCleanup (getLView st2)));
          st3 = lCleanup_push [Ref listenerFn, subscription] st2
      in tCleanup_push
           [JStr eventName, JNum (int (index (getPreviousOrParentTNode st3))),
            JNum (int idx), JNum (- (int idx + 1))] st3)"

fun subscribe_loop :: "string \<Rightarrow> ref \<Rightarrow> PropertyAliasValue \<Rightarrow> state \<Rightarrow> (error \<times> state) + state" where
  "subscribe_loop eventName listenerFn [] st = Inr st"
| "subscribe_loop eventName listenerFn ((i, publicName, minifiedName) # props) st =
     (if ngDevMode st \<noteq> None \<and> \<not> i < length (slots (getLView st)) then Inl (AssertionError, st)
      else if \<not> i < length (slots (getLView st)) then Inl (TypeError, st)
      else
        (case slots (getLView st) ! i of
           None \<Rightarrow> Inl (TypeError, st)
         | Some directiveInstance \<Rightarrow>
             if ngDevMode st \<noteq> None \<and> \<not> isObservable (members directiveInstance minifiedName)
             then Inl (Error (not_initialized minifiedName (constructor_name directiveInstance)), st)
             else
               (case members directiveInstance minifiedName of
                  Some (Observable s) \<Rightarrow>
                    subscribe_loop eventName listenerFn props
                      (subscribe_output eventName listenerFn s st)
                | _ \<Rightarrow> Inl (TypeError, st))))"

text \<open>The part \<open>subscribe to directive outputs\<close> of \<open>listenerInternal\<close>.\<close>

definition subscribeOutputs :: "env \<Rightarrow> string \<Rightarrow> ref \<Rightarrow> state \<Rightarrow> (error \<times> state) + state" where
  "subscribeOutputs env eventName listenerFn st0 =
     (let tn = getPreviousOrParentTNode st0;
          st1 = (if outputs tn = None
                 then st0\<lparr>getPreviousOrParentTNode :=
                          tn\<lparr>outputs := Some (generatePropertyAliases env tn)\<rparr>\<rparr>
                 else st0)
      in case outputs (getPreviousOrParentTNode st1) of
           Some (Some table) \<Rightarrow>
             (case map_of table eventName of
                Some props \<Rightarrow>
                  if props \<noteq> []
                  then subscribe_loop eventName listenerFn props
                         (st1\<lparr>getLView := snd (getCleanup (getLView st1))\<rparr>)
                  else Inr st1
              | None \<Rightarrow> Inr st1)
         | _ \<Rightarrow> Inr st1)"

text \<open>Line 105: \<open>firstTemplatePass && (tView.cleanup || (tView.cleanup = []))\<close>.\<close>

definition init_tCleanup :: "state \<Rightarrow> state" where
  "init_tCleanup st = tCleanup_push [] st"

text \<open>
  \<open>listenerInternal\<close>: line 105, the assertion of dev mode, the native listener when
  the node is an element, then the outputs, subscribed with the value the variable
  \<open>listenerFn\<close> has after the native part.
\<close>

definition listenerInternal ::
  "env \<Rightarrow> string \<Rightarrow> ref \<Rightarrow> bool \<Rightarrow> GlobalTargetResolver option
     \<Rightarrow> (TNode \<Rightarrow> LView \<Rightarrow> Renderer3) option \<Rightarrow> state \<Rightarrow> (error \<times> state) + state" where
  "listenerInternal env eventName listenerFn useCapture eventTargetResolver loadRendererFn st0 =
     (let st1 = init_tCleanup st0;
          tn = getPreviousOrParentTNode st1
      in if ngDevMode st1 \<noteq> None \<and> type tn \<notin> {Element, Container, ElementContainer}
         then Inl (AssertionError, st1)
         else
           (case (if type tn = Element
                  then addNativeListener eventName listenerFn useCapture eventTargetResolver
                         loadRendererFn st1
                  else Inr (listenerFn, st1)) of
              Inl failure \<Rightarrow> Inl failure
            | Inr (listenerFn', st2) \<Rightarrow> subscribeOutputs env eventName listenerFn' st2))"

text \<open>
  The two exported instructions, \<open>\<Delta>listener\<close> and
  \<open>\<Delta>componentHostSyntheticListener\<close> in the source.
\<close>

definition listener ::
  "env \<Rightarrow> string \<Rightarrow> ref \<Rightarrow> bool \<Rightarrow> GlobalTargetResolver option \<Rightarrow> state \<Rightarrow> (error \<times> state) + state" where
  "listener env eventName listenerFn useCapture eventTargetResolver st =
     listenerInternal env eventName listenerFn useCapture eventTargetResolver None st"

definition componentHostSyntheticListener ::
  "env \<Rightarrow> string \<Rightarrow> ref \<Rightarrow> bool \<Rightarrow> GlobalTargetResolver option \<Rightarrow> state \<Rightarrow> (error \<times> state) + state" where
  "componentHostSyntheticListener env eventName listenerFn useCapture eventTargetResolver st =
     listenerInternal env eventName listenerFn useCapture eventTargetResolver
       (Some (loadComponentRenderer env)) st"

subsection \<open>Notions used in the properties\<close>

text \<open>
  An entry for the event and the node begins at index \<open>i\<close> of the template
  cleanup array: what the lookup compares.
\<close>

definition listener_entry_at :: "jsval list \<Rightarrow> string \<Rightarrow> nat \<Rightarrow> nat \<Rightarrow> bool" where
  "listener_entry_at tCleanup eventName tNodeIdx i =
     (i + 1 < length tCleanup \<and> tCleanup ! i = JStr eventName
        \<and> tCleanup ! (i + 1) = JNum (int tNodeIdx))"

text \<open>
  The functions reached from \<open>cur\<close> by following
  \<open>__ngNextListenerFn__\<close> are \<open>fs\<close>, in order, and the last one
  has no next.
\<close>

fun chain :: "(ref \<rightharpoonup> ref) \<Rightarrow> ref option \<Rightarrow> ref list \<Rightarrow> bool" where
  "chain nxt cur [] = (cur = None)"
| "chain nxt cur (f # fs) = (cur = Some f \<and> chain nxt (nxt f) fs)"

text \<open>
  The handlers a trace invokes, the views it marks dirty, and its calls on the event
  object.
\<close>

fun invocations :: "effect list \<Rightarrow> ref list" where
  "invocations [] = []"
| "invocations (Invoke f e # xs) = f # invocations xs"
| "invocations (x # xs) = invocations xs"

fun dirty_marks :: "effect list \<Rightarrow> view list" where
  "dirty_marks [] = []"
| "dirty_marks (MarkViewDirty v # xs) = v # dirty_marks xs"
| "dirty_marks (x # xs) = dirty_marks xs"

fun suppressions :: "effect list \<Rightarrow> effect list" where
  "suppressions [] = []"
| "suppressions (PreventDefault e # xs) = PreventDefault e # suppressions xs"
| "suppressions (SetReturnValue e b # xs) = SetReturnValue e b # suppressions xs"
| "suppressions (x # xs) = suppressions xs"

text \<open>
  The calls made by invoking the handlers \<open>fs\<close> in order, and the result of
  the last one.
\<close>

definition run_handlers :: "env \<Rightarrow> LView \<Rightarrow> Event \<Rightarrow> ref list \<Rightarrow> effect list" where
  "run_handlers env lv e fs = concat (map (\<lambda>f. fst (executeListenerWithErrorHandling env lv f e)) fs)"

definition last_result :: "env \<Rightarrow> LView \<Rightarrow> Event \<Rightarrow> ref list \<Rightarrow> jsval \<Rightarrow> jsval" where
  "last_result env lv e fs r = foldl (\<lambda>r f. snd (executeListenerWithErrorHandling env lv f e)) r fs"

text \<open>
  What the last of the handlers \<open>fs\<close> gives when called with the event: the value it
  returns, or \<open>false\<close> when it throws.
\<close>

definition final_result :: "env \<Rightarrow> Event \<Rightarrow> ref list \<Rightarrow> jsval" where
  "final_result env e fs =
     (case handler env (last fs) e of Returns v \<Rightarrow> v | Throws err \<Rightarrow> JBool False)"

text \<open>The native registrations and the output subscriptions of a trace.\<close>

fun native_effects :: "effect list \<Rightarrow> effect list" where
  "native_effects [] = []"
| "native_effects (RendererListen r t n f # xs) = RendererListen r t n f # native_effects xs"
| "native_effects (AddEventListener t n f c # xs) = AddEventListener t n f c # native_effects xs"
| "native_effects (x # xs) = native_effects xs"

fun subscriptions :: "effect list \<Rightarrow> (nat \<times> ref) list" where
  "subscriptions [] = []"
| "subscriptions (OutputSubscribe s f # xs) = (s, f) # subscriptions xs"
| "subscriptions (x # xs) = subscriptions xs"

text \<open>
  The state a call ends in, whether it returned or threw, and the error it threw.
\<close>

definition result_state :: "(error \<times> state) + state \<Rightarrow> state" where
  "result_state r = (case r of Inl (err, st) \<Rightarrow> st | Inr st \<Rightarrow> st)"

text \<open>The stream behind an output triple, if the directive instance exposes one.\<close>

definition output_stream :: "LView \<Rightarrow> nat \<times> string \<times> string \<Rightarrow> nat option" where
  "output_stream lv p =
     (case p of (i, publicName, minifiedName) \<Rightarrow>
        if i < length (slots lv) then
          (case slots lv ! i of
             Some d \<Rightarrow> (case members d minifiedName of Some (Observable s) \<Rightarrow> Some s | _ \<Rightarrow> None)
           | None \<Rightarrow> None)
        else None)"

text \<open>The output triples \<open>listenerInternal\<close> finds for an event name on a node.\<close>

definition output_props :: "env \<Rightarrow> string \<Rightarrow> TNode \<Rightarrow> PropertyAliasValue" where
  "output_props env eventName tn =
     (case (case outputs tn of None \<Rightarrow> generatePropertyAliases env tn | Some t \<Rightarrow> t) of
        None \<Rightarrow> []
      | Some table \<Rightarrow> (case map_of table eventName of None \<Rightarrow> [] | Some props \<Rightarrow> props))"

text \<open>The cleanup records of \<open>n\<close> subscriptions of \<open>listenerFn\<close>, the first handle being \<open>a\<close>.\<close>

definition subscription_records :: "ref \<Rightarrow> nat \<Rightarrow> nat \<Rightarrow> jsval list" where
  "subscription_records listenerFn a n =
     concat (map (\<lambda>j. [Ref listenerFn, Ref (Subscription (a + j))]) [0..<n])"

text \<open>An array that may not exist yet, read as the empty one.\<close>

abbreviation or_empty :: "jsval list option \<Rightarrow> jsval list" where
  "or_empty a \<equiv> (case a of None \<Rightarrow> [] | Some c \<Rightarrow> c)"

text \<open>
  The subscriptions of \<open>listenerFn\<close> to the streams \<open>ss\<close>, in
  order.
\<close>

fun subscribe_all :: "string \<Rightarrow> ref \<Rightarrow> nat list \<Rightarrow> state \<Rightarrow> state" where
  "subscribe_all ev fn [] st = st"
| "subscribe_all ev fn (s # ss) st = subscribe_all ev fn ss (subscribe_output ev fn s st)"

text \<open>The node after \<open>tNode.outputs\<close> has been computed and cached.\<close>

definition cache_outputs :: "env \<Rightarrow> state \<Rightarrow> state" where
  "cache_outputs env st =
     (let tn = getPreviousOrParentTNode st
      in if outputs tn = None
         then st\<lparr>getPreviousOrParentTNode := tn\<lparr>outputs := Some (generatePropertyAliases env tn)\<rparr>\<rparr>
         else st)"

text \<open>The renderer \<open>listenerInternal\<close> uses: the one the loader returns, if there is one.\<close>

definition effective_renderer :: "(TNode \<Rightarrow> LView \<Rightarrow> Renderer3) option \<Rightarrow> state \<Rightarrow> Renderer3" where
  "effective_renderer loadRendererFn st =
     (case loadRendererFn of
        Some load \<Rightarrow> load (getPreviousOrParentTNode st) (getLView st)
      | None \<Rightarrow> RENDERER (getLView st))"

text \<open>The first argument of \<open>listen\<close> and the target of \<open>addEventListener\<close>.\<close>

definition target_of :: "GlobalTargetResolver option \<Rightarrow> nat \<Rightarrow> EventTarget" where
  "target_of eventTargetResolver i =
     (case eventTargetResolver of
        None \<Rightarrow> RElement i
      | Some resolver \<Rightarrow>
          (case resolved_target (resolver (RElement i)) of Some t \<Rightarrow> t | None \<Rightarrow> RElement i))"

definition listen_target_of :: "GlobalTargetResolver option \<Rightarrow> nat \<Rightarrow> listen_target" where
  "listen_target_of eventTargetResolver i =
     (case eventTargetResolver of
        None \<Rightarrow> TargetRef (RElement i)
      | Some resolver \<Rightarrow>
          if resolved_name (resolver (RElement i)) \<noteq> []
          then TargetName (resolved_name (resolver (RElement i)))
          else TargetRef (target_of eventTargetResolver i))"

text \<open>
  The state in which the lookup and the registration run: the view's cleanup list exists,
  and with a target resolver the closure \<open>idxOrTargetGetter\<close> has been allocated.
\<close>

definition with_cleanup :: "GlobalTargetResolver option \<Rightarrow> state \<Rightarrow> state" where
  "with_cleanup eventTargetResolver st =
     st\<lparr>getLView := (getLView st)\<lparr>CLEANUP := Some (or_empty (CLEANUP (getLView st)))\<rparr>,
        allocated := (case eventTargetResolver of None \<Rightarrow> allocated st
                      | Some resolver \<Rightarrow> Suc (allocated st))\<rparr>"

text \<open>
  The second slot of the template entry: the node index, or the closure when there is a
  target resolver.
\<close>

definition idxOrTargetGetter_of :: "GlobalTargetResolver option \<Rightarrow> state \<Rightarrow> jsval" where
  "idxOrTargetGetter_of eventTargetResolver st =
     (case eventTargetResolver of
        Some resolver \<Rightarrow> Ref (TargetGetter (allocated st))
      | None \<Rightarrow> JNum (int (index (getPreviousOrParentTNode st))))"

text \<open>The state in which the output loop starts.\<close>

definition outputs_start :: "env \<Rightarrow> string \<Rightarrow> state \<Rightarrow> state" where
  "outputs_start env ev st =
     (if output_props env ev (getPreviousOrParentTNode st) = [] then cache_outputs env st
      else (cache_outputs env st)\<lparr>getLView :=
              (getLView st)\<lparr>CLEANUP := Some (or_empty (CLEANUP (getLView st)))\<rparr>\<rparr>)"

text \<open>
  \<open>listenerInternal\<close> up to the comment \<open>subscribe to directive outputs\<close>: the
  assertion and the native listener. It returns the value of \<open>listenerFn\<close> at that point.
\<close>

definition native_part ::
  "string \<Rightarrow> ref \<Rightarrow> bool \<Rightarrow> GlobalTargetResolver option \<Rightarrow> (TNode \<Rightarrow> LView \<Rightarrow> Renderer3) option
     \<Rightarrow> state \<Rightarrow> (error \<times> state) + (ref \<times> state)" where
  "native_part ev h uc res ldr st =
     (if ngDevMode st \<noteq> None
          \<and> type (getPreviousOrParentTNode st) \<notin> {Element, Container, ElementContainer}
      then Inl (AssertionError, init_tCleanup st)
      else if type (getPreviousOrParentTNode st) = Element
      then addNativeListener ev h uc res ldr (init_tCleanup st)
      else Inr (h, init_tCleanup st))"

definition failure_of :: "(error \<times> state) + state \<Rightarrow> error option" where
  "failure_of r = (case r of Inl (err, st) \<Rightarrow> Some err | Inr st \<Rightarrow> None)"

text \<open>Successive calls of \<open>listener\<close> for one event name, defaults for the rest.\<close>

fun install_all :: "env \<Rightarrow> string \<Rightarrow> ref list \<Rightarrow> state \<Rightarrow> (error \<times> state) + state" where
  "install_all env ev [] st = Inr st"
| "install_all env ev (h # hs) st =
     (case listener env ev h False None st of
        Inl failure \<Rightarrow> Inl failure
      | Inr st' \<Rightarrow> install_all env ev hs st')"

text \<open>
  The lookup finds the listener \<open>W\<close>: the first entry for the event and node at a
  multiple of 4 records an index of the view's cleanup list that holds \<open>W\<close>.
\<close>

definition head_at :: "jsval list \<Rightarrow> jsval list \<Rightarrow> string \<Rightarrow> nat \<Rightarrow> ref \<Rightarrow> bool" where
  "head_at tc lc ev i W =
     (\<exists>k L. listener_entry_at tc ev i (4 * k)
        \<and> (\<forall>j. j < k \<longrightarrow> \<not> listener_entry_at tc ev i (4 * j))
        \<and> arr_get tc (4 * k + 2) = JNum (int L) \<and> L < length lc \<and> lc ! L = Ref W)"

definition head_entry :: "state \<Rightarrow> string \<Rightarrow> ref \<Rightarrow> bool" where
  "head_entry st ev W =
     (\<exists>tc lc. cleanup (TVIEW (getLView st)) = Some tc \<and> CLEANUP (getLView st) = Some lc
        \<and> head_at tc lc ev (index (getPreviousOrParentTNode st)) W)"

text \<open>
  The states in which a first listener for the event on the current node will be found
  by the next ones. On the first template pass: the template cleanup array is made of
  4-slot entries and none is for this event and node. On a later pass: the entry recorded
  by the first pass is the first one at a multiple of 4, and the index it records is the
  next free index of this view's cleanup list.
\<close>

definition coalescing_ready :: "state \<Rightarrow> string \<Rightarrow> bool" where
  "coalescing_ready st ev =
     (let tc = or_empty (cleanup (TVIEW (getLView st)));
          lc = or_empty (CLEANUP (getLView st));
          i = index (getPreviousOrParentTNode st)
      in if firstTemplatePass (TVIEW (getLView st))
         then length tc mod 4 = 0 \<and> (\<forall>k. \<not> listener_entry_at tc ev i (4 * k))
         else (\<exists>k. listener_entry_at tc ev i (4 * k)
                 \<and> (\<forall>j. j < k \<longrightarrow> \<not> listener_entry_at tc ev i (4 * j))
                 \<and> arr_get tc (4 * k + 2) = JNum (int (length lc))))"

subsection \<open>Example inputs\<close>

text \<open>
  A template cleanup array with a 2-slot entry in front of a listener entry, and a view
  whose cleanup list already holds that listener.
\<close>

definition hooked_tCleanup :: "jsval list" where
  "hooked_tCleanup =
     [Ref (OtherObject 0), JNum 0, JStr ''click'', JNum 1, JNum 1, JNum 2]"

definition hooked_lView :: LView where
  "hooked_lView =
     \<lparr>lview_id = 0, TVIEW = \<lparr>firstTemplatePass = False, cleanup = Some hooked_tCleanup\<rparr>,
      FLAGS = 0, RENDERER = ProceduralRenderer3 0,
      CLEANUP = Some [Ref (OtherObject 1),
                      Ref (WrapListenerIn 0 \<lparr>type = Element, index = 1, flags = 0, outputs = None\<rparr>
                             (ListenerFn 1) False),
                      Ref (CleanupFn 1)],
      slots = []\<rparr>"

text \<open>
  A later instance of a template: the entry is there, the view has not registered its
  listener yet.
\<close>

definition unpopulated_lView :: LView where
  "unpopulated_lView =
     \<lparr>lview_id = 1,
      TVIEW = \<lparr>firstTemplatePass = False,
                cleanup = Some [JStr ''click'', JNum 1, JNum 0, JNum 1]\<rparr>,
      FLAGS = 0, RENDERER = ProceduralRenderer3 0, CLEANUP = Some [], slots = []\<rparr>"

text \<open>
  Handlers: number 3 throws, number 4 returns \<open>false\<close>, number 5 returns 0,
  the others return \<open>undefined\<close>.
\<close>

fun example_handler :: "ref \<Rightarrow> Event \<Rightarrow> outcome" where
  "example_handler (ListenerFn n) e =
     (if n = 3 then Throws (JStr ''boom'')
      else if n = 4 then Returns (JBool False)
      else if n = 5 then Returns (JNum 0)
      else Returns Undefined)"
| "example_handler f e = Returns Undefined"

definition example_env :: env where
  "example_env =
     \<lparr>handler = example_handler, TNodeFlags_isComponent = 1, LViewFlags_ManualOnPush = 32,
      generatePropertyAliases = (\<lambda>tn. None),
      loadComponentRenderer = (\<lambda>tn lv. ProceduralRenderer3 1)\<rparr>"

text \<open>
  An element, a component host, and a new view of a new template with a procedural
  renderer, in dev mode.
\<close>

definition element_tNode :: TNode where
  "element_tNode = \<lparr>type = Element, index = 1, flags = 0, outputs = None\<rparr>"

definition component_tNode :: TNode where
  "component_tNode = \<lparr>type = Element, index = 1, flags = 1, outputs = None\<rparr>"

definition fresh_lView :: LView where
  "fresh_lView =
     \<lparr>lview_id = 0, TVIEW = \<lparr>firstTemplatePass = True, cleanup = None\<rparr>, FLAGS = 0,
      RENDERER = ProceduralRenderer3 0, CLEANUP = None, slots = []\<rparr>"

definition fresh_state :: state where
  "fresh_state =
     \<lparr>getLView = fresh_lView, getPreviousOrParentTNode = element_tNode,
      ngNextListenerFn = Map.empty, allocated = 0, ngDevMode = Some 0, effects = []\<rparr>"

text \<open>
  The same view with the flag \<open>ManualOnPush\<close> set, and one with a chain of
  two handlers on the wrapper of handler 1.
\<close>

definition manual_state :: state where
  "manual_state = fresh_state\<lparr>getLView := fresh_lView\<lparr>FLAGS := 32\<rparr>\<rparr>"

definition chained_state :: state where
  "chained_state =
     fresh_state\<lparr>ngNextListenerFn :=
       [WrapListenerIn 0 element_tNode (ListenerFn 1) False \<mapsto> ListenerFn 3,
        ListenerFn 3 \<mapsto> ListenerFn 2]\<rparr>"

text \<open>A container node, and a view whose renderer is not procedural.\<close>

definition container_state :: state where
  "container_state =
     fresh_state\<lparr>getPreviousOrParentTNode := element_tNode\<lparr>type := Container\<rparr>\<rparr>"

definition dom_state :: state where
  "dom_state = fresh_state\<lparr>getLView := fresh_lView\<lparr>RENDERER := ObjectOrientedRenderer3\<rparr>\<rparr>"

definition dom_install :: "(error \<times> state) + state" where
  "dom_install = listenerInternal example_env ''click'' (ListenerFn 4) True None None dom_state"

text \<open>
  The same view with handler \<open>m\<close> chained behind the directly attached wrapper of
  handler \<open>n\<close>.
\<close>

definition direct_chain :: "nat \<Rightarrow> nat \<Rightarrow> state" where
  "direct_chain n m =
     dom_state\<lparr>ngNextListenerFn :=
       [WrapListenerIn 0 element_tNode (ListenerFn n) True \<mapsto> ListenerFn m]\<rparr>"

text \<open>
  Handler 4 bound to \<open>click\<close> through the procedural renderer, and handler 2 bound to
  the same event on the same element after it.
\<close>

definition procedural_install :: "(error \<times> state) + state" where
  "procedural_install =
     listenerInternal example_env ''click'' (ListenerFn 4) False None None fresh_state"

definition coalesced_install :: "(error \<times> state) + state" where
  "coalesced_install =
     listenerInternal example_env ''click'' (ListenerFn 2) False None None
       (result_state procedural_install)"

definition container_install :: "(error \<times> state) + state" where
  "container_install =
     listenerInternal example_env ''click'' (ListenerFn 1) False None None container_state"

definition element_install :: "(error \<times> state) + state" where
  "element_install =
     listenerInternal example_env ''click'' (ListenerFn 1) False None None fresh_state"

text \<open>
  Two directives with an output \<open>change\<close>: one holds a stream, the other a
  value that is no stream.
\<close>

definition emitter :: "nat \<Rightarrow> directive" where
  "emitter s = \<lparr>constructor_name = ''Emitter'', members = [''change'' \<mapsto> Observable s]\<rparr>"

definition broken_directive :: directive where
  "broken_directive = \<lparr>constructor_name = ''MyDir'', members = [''change'' \<mapsto> NotObservable]\<rparr>"

text \<open>
  A node where the directives at slots 0 and 1 both declare the output
  \<open>change\<close>.
\<close>

definition change_tNode :: "TNodeType \<Rightarrow> TNode" where
  "change_tNode ty =
     \<lparr>type = ty, index = 1, flags = 0,
      outputs = Some (Some [(''change'', [(0, ''change'', ''change''), (1, ''change'', ''change'')])])\<rparr>"

definition two_outputs_state :: "TNodeType \<Rightarrow> state" where
  "two_outputs_state ty =
     fresh_state\<lparr>getLView := fresh_lView\<lparr>slots := [Some (emitter 5), Some (emitter 6)]\<rparr>,
                 getPreviousOrParentTNode := change_tNode ty\<rparr>"

definition broken_output_state :: "nat option \<Rightarrow> state" where
  "broken_output_state dev =
     fresh_state\<lparr>getLView := fresh_lView\<lparr>slots := [Some (emitter 5), Some broken_directive]\<rparr>,
                 getPreviousOrParentTNode := change_tNode Container,
                 ngDevMode := dev\<rparr>"

definition broken_install :: "nat option \<Rightarrow> (error \<times> state) + state" where
  "broken_install dev =
     listenerInternal example_env ''change'' (ListenerFn 1) False None None (broken_output_state dev)"

definition outputs_install :: "TNodeType \<Rightarrow> (error \<times> state) + state" where
  "outputs_install ty =
     listenerInternal example_env ''change'' (ListenerFn 1) False None None (two_outputs_state ty)"

text \<open>
  A template whose cleanup array starts with a 2-slot entry (a destroy hook: the cleanup
  function and the index of its context), and the view's list with that context.
\<close>

definition hooked_state :: state where
  "hooked_state =
     fresh_state\<lparr>getLView := fresh_lView
       \<lparr>TVIEW := \<lparr>firstTemplatePass = True, cleanup = Some [Ref (OtherObject 0), JNum 0]\<rparr>,
        CLEANUP := Some [Ref (OtherObject 1)]\<rparr>\<rparr>"

text \<open>Handlers bound in turn to \<open>click\<close> on the element.\<close>

definition hooked_two :: "(error \<times> state) + state" where
  "hooked_two = install_all example_env ''click'' [ListenerFn 1, ListenerFn 2] hooked_state"

definition two_bound :: "(error \<times> state) + state" where
  "two_bound = install_all example_env ''click'' [ListenerFn 1, ListenerFn 2] fresh_state"

definition three_bound :: "(error \<times> state) + state" where
  "three_bound =
     install_all example_env ''click'' [ListenerFn 1, ListenerFn 2, ListenerFn 3] fresh_state"

definition twice_bound :: "(error \<times> state) + state" where
  "twice_bound =
     install_all example_env ''click'' [ListenerFn 1, ListenerFn 2, ListenerFn 2] fresh_state"

section \<open>Properties\<close>

subsection \<open>The lookup looks at every fourth index\<close>

lemma loop_unfold_match:
  "listener_entry_at tc ev idx i \<Longrightarrow>
   findExistingListener_loop tc lc ev idx i =
     (case lc of None \<Rightarrow> Inl TypeError
      | Some l \<Rightarrow> Inr (lookup_lCleanup l (arr_get tc (i + 2))))"
  by (subst findExistingListener_loop.simps) (simp add: listener_entry_at_def)

lemma loop_unfold_skip:
  "\<not> listener_entry_at tc ev idx i \<Longrightarrow>
   findExistingListener_loop tc lc ev idx i =
     (if i + 1 < length tc then findExistingListener_loop tc lc ev idx (i + 2 + 2) else Inr Null)"
  by (subst findExistingListener_loop.simps) (auto simp add: listener_entry_at_def)

lemma stride_four: "4 * k + 2 + 2 = 4 * Suc k"
  by simp

lemma loop_first_match:
  "k0 \<le> k \<Longrightarrow> listener_entry_at tc ev idx (4 * k) \<Longrightarrow>
   (\<And>j. k0 \<le> j \<Longrightarrow> j < k \<Longrightarrow> \<not> listener_entry_at tc ev idx (4 * j)) \<Longrightarrow>
   findExistingListener_loop tc lc ev idx (4 * k0) =
     (case lc of None \<Rightarrow> Inl TypeError
      | Some l \<Rightarrow> Inr (lookup_lCleanup l (arr_get tc (4 * k + 2))))"
proof (induction "k - k0" arbitrary: k0)
  case 0
  then have "k0 = k" by simp
  with 0 show ?case by (simp add: loop_unfold_match)
next
  case (Suc d)
  then have lt: "k0 < k" by simp
  then have nm: "\<not> listener_entry_at tc ev idx (4 * k0)" using Suc.prems(3) by simp
  have inr: "4 * k0 + 1 < length tc"
    using Suc.prems(2) lt by (simp add: listener_entry_at_def)
  have step: "findExistingListener_loop tc lc ev idx (4 * k0) =
              findExistingListener_loop tc lc ev idx (4 * Suc k0)"
    by (simp only: loop_unfold_skip [OF nm] inr if_True stride_four)
  have "findExistingListener_loop tc lc ev idx (4 * Suc k0) =
     (case lc of None \<Rightarrow> Inl TypeError
      | Some l \<Rightarrow> Inr (lookup_lCleanup l (arr_get tc (4 * k + 2))))"
  proof (rule Suc.hyps(1))
    show "d = k - Suc k0" using Suc.hyps(2) by simp
    show "Suc k0 \<le> k" using lt by simp
    show "listener_entry_at tc ev idx (4 * k)" by (rule Suc.prems(2))
    show "\<And>j. Suc k0 \<le> j \<Longrightarrow> j < k \<Longrightarrow> \<not> listener_entry_at tc ev idx (4 * j)"
      using Suc.prems(3) by simp
  qed
  with step show ?case by simp
qed

lemma loop_no_match:
  "(\<And>j. k0 \<le> j \<Longrightarrow> \<not> listener_entry_at tc ev idx (4 * j)) \<Longrightarrow>
   findExistingListener_loop tc lc ev idx (4 * k0) = Inr Null"
proof (induction "length tc - 4 * k0" arbitrary: k0 rule: less_induct)
  case less
  have nm: "\<not> listener_entry_at tc ev idx (4 * k0)" using less.prems by simp
  show ?case
  proof (cases "4 * k0 + 1 < length tc")
    case True
    have "findExistingListener_loop tc lc ev idx (4 * Suc k0) = Inr Null"
      by (rule less.hyps) (use True less.prems in auto)
    then show ?thesis by (simp only: loop_unfold_skip [OF nm] True if_True stride_four)
  next
    case False
    then show ?thesis by (simp only: loop_unfold_skip [OF nm] if_False)
  qed
qed

text \<open>
  C10: the lookup looks at the pairs (event name, node index) at the indices 0, 4, 8, ...
  of the template cleanup array only, whatever the width of the entries: with no match at
  those indices it returns \<open>null\<close>, so an entry that begins elsewhere is never found.
  At the first match at such an index, it returns \<open>null\<close> when the recorded index is
  not yet populated in the view's cleanup list, else the element there.
\<close>

theorem findExistingListener_stride:
  assumes "cleanup (TVIEW lv) = Some tc"
  shows "((\<forall>k. \<not> listener_entry_at tc ev idx (4 * k))
            \<longrightarrow> findExistingListener lv ev idx = Inr Null)
       \<and> (\<forall>k lc n. listener_entry_at tc ev idx (4 * k)
              \<and> (\<forall>j. j < k \<longrightarrow> \<not> listener_entry_at tc ev idx (4 * j))
              \<and> CLEANUP lv = Some lc \<and> arr_get tc (4 * k + 2) = JNum n
            \<longrightarrow> findExistingListener lv ev idx
                  = Inr (if int (length lc) \<le> n then Null
                         else if 0 \<le> n then lc ! nat n else Undefined))"
proof (intro conjI impI allI)
  assume "\<forall>k. \<not> listener_entry_at tc ev idx (4 * k)"
  then have "findExistingListener_loop tc (CLEANUP lv) ev idx (4 * 0) = Inr Null"
    by (intro loop_no_match) simp
  then show "findExistingListener lv ev idx = Inr Null"
    using assms by (simp add: findExistingListener_def)
next
  fix k lc n
  assume h: "listener_entry_at tc ev idx (4 * k)
              \<and> (\<forall>j. j < k \<longrightarrow> \<not> listener_entry_at tc ev idx (4 * j))
              \<and> CLEANUP lv = Some lc \<and> arr_get tc (4 * k + 2) = JNum n"
  have "findExistingListener_loop tc (CLEANUP lv) ev idx (4 * 0) =
          (case CLEANUP lv of None \<Rightarrow> Inl TypeError
           | Some l \<Rightarrow> Inr (lookup_lCleanup l (arr_get tc (4 * k + 2))))"
    by (rule loop_first_match) (use h in auto)
  then show "findExistingListener lv ev idx
                  = Inr (if int (length lc) \<le> n then Null
                         else if 0 \<le> n then lc ! nat n else Undefined)"
    using assms h by (simp add: findExistingListener_def lookup_lCleanup_def)
qed

lemma hooked_no_aligned_entry: "\<not> listener_entry_at hooked_tCleanup ''click'' 1 (4 * k)"
proof (cases k)
  case 0
  then show ?thesis by (simp add: listener_entry_at_def hooked_tCleanup_def)
next
  case (Suc m)
  then show ?thesis by (cases m) (simp_all add: listener_entry_at_def hooked_tCleanup_def)
qed

theorem findExistingListener_stride_witness:
  "listener_entry_at hooked_tCleanup ''click'' 1 2
   \<and> findExistingListener hooked_lView ''click'' 1 = Inr Null
   \<and> findExistingListener unpopulated_lView ''click'' 1 = Inr Null"
proof (intro conjI)
  show "listener_entry_at hooked_tCleanup ''click'' 1 2"
    by (simp add: listener_entry_at_def hooked_tCleanup_def)
  have c: "cleanup (TVIEW hooked_lView) = Some hooked_tCleanup"
    by (simp add: hooked_lView_def)
  show "findExistingListener hooked_lView ''click'' 1 = Inr Null"
    using findExistingListener_stride [OF c, of "''click''" 1] hooked_no_aligned_entry
    by blast
  have c2: "cleanup (TVIEW unpopulated_lView) = Some [JStr ''click'', JNum 1, JNum 0, JNum 1]"
    by (simp add: unpopulated_lView_def)
  have e: "listener_entry_at [JStr ''click'', JNum 1, JNum 0, JNum 1] ''click'' 1 (4 * 0)
            \<and> (\<forall>j. j < (0::nat) \<longrightarrow>
                  \<not> listener_entry_at [JStr ''click'', JNum 1, JNum 0, JNum 1] ''click'' 1 (4 * j))
            \<and> CLEANUP unpopulated_lView = Some []
            \<and> arr_get [JStr ''click'', JNum 1, JNum 0, JNum 1] (4 * 0 + 2) = JNum 0"
    by (simp add: listener_entry_at_def unpopulated_lView_def arr_get_def)
  from findExistingListener_stride [OF c2, of "''click''" 1]
  have "findExistingListener unpopulated_lView ''click'' 1
          = Inr (if int (length ([]::jsval list)) \<le> 0 then Null
                 else if (0::int) \<le> 0 then [] ! nat 0 else Undefined)"
    using e by blast
  then show "findExistingListener unpopulated_lView ''click'' 1 = Inr Null" by simp
qed

subsection \<open>Dispatch through a wrapper\<close>

lemma coalesced_loop_chain:
  "chain nxt cur fs \<Longrightarrow>
   coalesced_loop env lv nxt e cur tr r =
     Some (tr @ run_handlers env lv e fs, last_result env lv e fs r)"
proof (induction fs arbitrary: cur tr r)
  case Nil
  then show ?case by (simp add: coalesced_loop.simps run_handlers_def last_result_def)
next
  case (Cons f fs)
  then have c: "cur = Some f" and rest: "chain nxt (nxt f) fs" by simp_all
  show ?case
    by (subst coalesced_loop.simps)
       (simp add: c Cons.IH [OF rest] run_handlers_def last_result_def)
qed

lemma coalesced_loop_returns:
  assumes "coalesced_loop env lv nxt e cur tr r = Some res"
  shows "\<exists>fs. chain nxt cur fs"
proof (rule coalesced_loop.raw_induct
         [where P = "\<lambda>env lv nxt e cur tr r res. \<exists>fs. chain nxt cur fs", OF _ assms])
  fix loop :: "env \<Rightarrow> LView \<Rightarrow> (ref \<rightharpoonup> ref) \<Rightarrow> Event \<Rightarrow> ref option \<Rightarrow> effect list \<Rightarrow> jsval
     \<Rightarrow> (effect list \<times> jsval) option"
    and env lv nxt e cur tr r res
  assume IH: "\<And>env lv nxt e cur tr r res.
                 loop env lv nxt e cur tr r = Some res \<Longrightarrow> \<exists>fs. chain nxt cur fs"
    and step: "(case cur of None \<Rightarrow> Some (tr, r)
               | Some f \<Rightarrow> loop env lv nxt e (nxt f)
                   (tr @ fst (executeListenerWithErrorHandling env lv f e))
                   (snd (executeListenerWithErrorHandling env lv f e))) = Some res"
  show "\<exists>fs. chain nxt cur fs"
  proof (cases cur)
    case None
    then have "chain nxt cur []" by simp
    then show ?thesis ..
  next
    case (Some f)
    with step have "loop env lv nxt e (nxt f)
            (tr @ fst (executeListenerWithErrorHandling env lv f e))
            (snd (executeListenerWithErrorHandling env lv f e)) = Some res" by simp
    from IH [OF this] obtain fs where "chain nxt (nxt f) fs" ..
    with Some have "chain nxt cur (f # fs)" by simp
    then show ?thesis ..
  qed
qed

lemma chain_unique: "chain nxt cur fs \<Longrightarrow> chain nxt cur gs \<Longrightarrow> fs = gs"
proof (induction fs arbitrary: cur gs)
  case Nil
  then show ?case by (cases gs) simp_all
next
  case (Cons f fs)
  then show ?case by (cases gs) auto
qed

lemma wrapper_chain:
  assumes "chain (ngNextListenerFn st)
             (ngNextListenerFn st (WrapListenerIn k tn listenerFn pd)) fs"
  shows "wrapListenerIn_markDirtyAndPreventDefault env st k tn listenerFn pd e =
           Some ((if FLAGS (getLView st) AND LViewFlags_ManualOnPush env = 0
                  then [MarkViewDirty
                          (if flags tn AND TNodeFlags_isComponent env \<noteq> 0
                           then getComponentViewByIndex (index tn) (getLView st)
                           else ThisLView (lview_id (getLView st)))]
                  else [])
                 @ run_handlers env (getLView st) e (listenerFn # fs)
                 @ (if pd \<and> last_result env (getLView st) e (listenerFn # fs) Undefined = JBool False
                    then [PreventDefault e, SetReturnValue e False] else []),
                 last_result env (getLView st) e (listenerFn # fs) Undefined)"
  unfolding wrapListenerIn_markDirtyAndPreventDefault_def Let_def
  by (simp add: coalesced_loop_chain [OF assms] run_handlers_def last_result_def)

lemma wrapper_returns:
  assumes "wrapListenerIn_markDirtyAndPreventDefault env st k tn listenerFn pd e = Some res"
  shows "\<exists>fs. chain (ngNextListenerFn st)
                (ngNextListenerFn st (WrapListenerIn k tn listenerFn pd)) fs"
proof -
  from assms obtain res' where
    "coalesced_loop env (getLView st) (ngNextListenerFn st) e
       (ngNextListenerFn st (WrapListenerIn k tn listenerFn pd))
       ((if FLAGS (getLView st) AND LViewFlags_ManualOnPush env = 0
         then [MarkViewDirty
                 (if flags tn AND TNodeFlags_isComponent env \<noteq> 0
                  then getComponentViewByIndex (index tn) (getLView st)
                  else ThisLView (lview_id (getLView st)))]
         else [])
        @ fst (executeListenerWithErrorHandling env (getLView st) listenerFn e))
       (snd (executeListenerWithErrorHandling env (getLView st) listenerFn e)) = Some res'"
    unfolding wrapListenerIn_markDirtyAndPreventDefault_def Let_def
    by (auto split: option.splits)
  then show ?thesis by (rule coalesced_loop_returns)
qed

lemma invocations_append [simp]: "invocations (xs @ ys) = invocations xs @ invocations ys"
  by (induction xs rule: invocations.induct) simp_all

lemma dirty_marks_append [simp]: "dirty_marks (xs @ ys) = dirty_marks xs @ dirty_marks ys"
  by (induction xs rule: dirty_marks.induct) simp_all

lemma suppressions_append [simp]: "suppressions (xs @ ys) = suppressions xs @ suppressions ys"
  by (induction xs rule: suppressions.induct) simp_all

lemma run_handlers_Cons:
  "run_handlers env lv e (f # fs) =
     fst (executeListenerWithErrorHandling env lv f e) @ run_handlers env lv e fs"
  by (simp add: run_handlers_def)

lemma run_handlers_Nil [simp]: "run_handlers env lv e [] = []"
  by (simp add: run_handlers_def)

lemma invocations_execute [simp]:
  "invocations (fst (executeListenerWithErrorHandling env lv f e)) = [f]"
  by (simp add: executeListenerWithErrorHandling_def split: outcome.splits)

lemma dirty_marks_execute [simp]:
  "dirty_marks (fst (executeListenerWithErrorHandling env lv f e)) = []"
  by (simp add: executeListenerWithErrorHandling_def split: outcome.splits)

lemma suppressions_execute [simp]:
  "suppressions (fst (executeListenerWithErrorHandling env lv f e)) = []"
  by (simp add: executeListenerWithErrorHandling_def split: outcome.splits)

lemma invocations_run_handlers [simp]: "invocations (run_handlers env lv e fs) = fs"
  by (induction fs) (simp_all add: run_handlers_Cons)

lemma dirty_marks_run_handlers [simp]: "dirty_marks (run_handlers env lv e fs) = []"
  by (induction fs) (simp_all add: run_handlers_Cons)

lemma suppressions_run_handlers [simp]: "suppressions (run_handlers env lv e fs) = []"
  by (induction fs) (simp_all add: run_handlers_Cons)

lemma run_handlers_append:
  "run_handlers env lv e (fs @ gs) = run_handlers env lv e fs @ run_handlers env lv e gs"
  by (simp add: run_handlers_def)

lemma last_result_last:
  "fs \<noteq> [] \<Longrightarrow>
   last_result env lv e fs r = snd (executeListenerWithErrorHandling env lv (last fs) e)"
proof (induction fs arbitrary: r)
  case Nil
  then show ?case by simp
next
  case (Cons f fs)
  then show ?case by (cases fs) (simp_all add: last_result_def)
qed

lemma execute_throws:
  "handler env f e = Throws err \<Longrightarrow>
   executeListenerWithErrorHandling env lv f e =
     ([Invoke f e, HandleError (lview_id lv) err], JBool False)"
  by (simp add: executeListenerWithErrorHandling_def)

lemma execute_returns:
  "handler env f e = Returns v \<Longrightarrow>
   executeListenerWithErrorHandling env lv f e = ([Invoke f e], v)"
  by (simp add: executeListenerWithErrorHandling_def)

text \<open>
  C3: a dispatch through a wrapped listener marks exactly one view dirty, the component's
  own view when the node is a component host and the enclosing view otherwise, and marks
  no view at all when the enclosing view carries the flag \<open>ManualOnPush\<close>.
\<close>

theorem dispatch_marks_view:
  "(\<forall>tr r. wrapListenerIn_markDirtyAndPreventDefault env st k tn listenerFn pd e = Some (tr, r)
       \<longrightarrow> dirty_marks tr =
             (if FLAGS (getLView st) AND LViewFlags_ManualOnPush env \<noteq> 0 then []
              else if flags tn AND TNodeFlags_isComponent env \<noteq> 0
                   then [getComponentViewByIndex (index tn) (getLView st)]
                   else [ThisLView (lview_id (getLView st))]))
   \<and> (\<forall>fs. chain (ngNextListenerFn st)
               (ngNextListenerFn st (WrapListenerIn k tn listenerFn pd)) fs
       \<longrightarrow> (\<exists>tr r. wrapListenerIn_markDirtyAndPreventDefault env st k tn listenerFn pd e
                      = Some (tr, r)))
   \<and> getComponentViewByIndex (index tn) (getLView st) \<noteq> ThisLView (lview_id (getLView st))"
proof (intro conjI allI impI)
  fix tr r
  assume run: "wrapListenerIn_markDirtyAndPreventDefault env st k tn listenerFn pd e = Some (tr, r)"
  from wrapper_returns [OF run] obtain fs where
    "chain (ngNextListenerFn st) (ngNextListenerFn st (WrapListenerIn k tn listenerFn pd)) fs" ..
  from wrapper_chain [OF this, of env e] run
  show "dirty_marks tr =
             (if FLAGS (getLView st) AND LViewFlags_ManualOnPush env \<noteq> 0 then []
              else if flags tn AND TNodeFlags_isComponent env \<noteq> 0
                   then [getComponentViewByIndex (index tn) (getLView st)]
                   else [ThisLView (lview_id (getLView st))])"
    by auto
next
  fix fs
  assume "chain (ngNextListenerFn st) (ngNextListenerFn st (WrapListenerIn k tn listenerFn pd)) fs"
  from wrapper_chain [OF this, of env e]
  show "\<exists>tr r. wrapListenerIn_markDirtyAndPreventDefault env st k tn listenerFn pd e = Some (tr, r)"
    by blast
next
  show "getComponentViewByIndex (index tn) (getLView st) \<noteq> ThisLView (lview_id (getLView st))"
    by (simp add: getComponentViewByIndex_def)
qed

text \<open>
  C7: when dirty-marking applies, the mark is the first thing a dispatch does: every
  handler, head or chained, is invoked after it, and nothing is marked afterwards. The
  dispatch returns whenever the chain is finite.
\<close>

theorem dirty_mark_precedes_handlers:
  assumes "FLAGS (getLView st) AND LViewFlags_ManualOnPush env = 0"
  shows "(\<forall>tr r. wrapListenerIn_markDirtyAndPreventDefault env st k tn listenerFn pd e = Some (tr, r)
            \<longrightarrow> (\<exists>rest. tr = MarkViewDirty
                                (if flags tn AND TNodeFlags_isComponent env \<noteq> 0
                                 then getComponentViewByIndex (index tn) (getLView st)
                                 else ThisLView (lview_id (getLView st))) # rest
                    \<and> dirty_marks rest = [] \<and> invocations rest = invocations tr
                    \<and> invocations tr \<noteq> []))
       \<and> (\<forall>fs. chain (ngNextListenerFn st)
                   (ngNextListenerFn st (WrapListenerIn k tn listenerFn pd)) fs
            \<longrightarrow> (\<exists>tr r. wrapListenerIn_markDirtyAndPreventDefault env st k tn listenerFn pd e
                          = Some (tr, r)))"
proof (intro conjI allI impI)
  fix tr r
  assume run: "wrapListenerIn_markDirtyAndPreventDefault env st k tn listenerFn pd e = Some (tr, r)"
  from wrapper_returns [OF run] obtain fs where
    "chain (ngNextListenerFn st) (ngNextListenerFn st (WrapListenerIn k tn listenerFn pd)) fs" ..
  from wrapper_chain [OF this, of env e] run assms
  show "\<exists>rest. tr = MarkViewDirty
                        (if flags tn AND TNodeFlags_isComponent env \<noteq> 0
                         then getComponentViewByIndex (index tn) (getLView st)
                         else ThisLView (lview_id (getLView st))) # rest
            \<and> dirty_marks rest = [] \<and> invocations rest = invocations tr
            \<and> invocations tr \<noteq> []"
    by auto
next
  fix fs
  assume "chain (ngNextListenerFn st) (ngNextListenerFn st (WrapListenerIn k tn listenerFn pd)) fs"
  from wrapper_chain [OF this, of env e]
  show "\<exists>tr r. wrapListenerIn_markDirtyAndPreventDefault env st k tn listenerFn pd e = Some (tr, r)"
    by blast
qed

text \<open>
  C4: when a handler of the chain throws, the dispatch still returns a value: the error
  goes to \<open>handleError\<close> of the view right after the call, the handler counts as
  having returned \<open>false\<close>, and every handler of the chain is invoked, in chain order.
\<close>

theorem throwing_handler_is_isolated:
  assumes c: "chain (ngNextListenerFn st)
                (ngNextListenerFn st (WrapListenerIn k tn listenerFn pd)) fs"
    and f: "f \<in> set (listenerFn # fs)"
    and t: "handler env f e = Throws err"
  shows "\<exists>tr r before after.
           wrapListenerIn_markDirtyAndPreventDefault env st k tn listenerFn pd e = Some (tr, r)
         \<and> invocations tr = listenerFn # fs
         \<and> tr = before @ [Invoke f e, HandleError (lview_id (getLView st)) err] @ after
         \<and> executeListenerWithErrorHandling env (getLView st) f e
             = ([Invoke f e, HandleError (lview_id (getLView st)) err], JBool False)
         \<and> r = snd (executeListenerWithErrorHandling env (getLView st)
                       (last (listenerFn # fs)) e)"
proof -
  from f obtain pre post where sp: "listenerFn # fs = pre @ f # post"
    by (meson split_list)
  have ex: "executeListenerWithErrorHandling env (getLView st) f e
             = ([Invoke f e, HandleError (lview_id (getLView st)) err], JBool False)"
    using t by (rule execute_throws)
  have run: "run_handlers env (getLView st) e (listenerFn # fs) =
               run_handlers env (getLView st) e pre
               @ [Invoke f e, HandleError (lview_id (getLView st)) err]
               @ run_handlers env (getLView st) e post"
    by (simp only: sp run_handlers_append run_handlers_Cons ex fst_conv)
  have res: "last_result env (getLView st) e (listenerFn # fs) Undefined
               = snd (executeListenerWithErrorHandling env (getLView st)
                        (last (listenerFn # fs)) e)"
    by (rule last_result_last) simp
  let ?marks = "(if FLAGS (getLView st) AND LViewFlags_ManualOnPush env = 0
                  then [MarkViewDirty
                          (if flags tn AND TNodeFlags_isComponent env \<noteq> 0
                           then getComponentViewByIndex (index tn) (getLView st)
                           else ThisLView (lview_id (getLView st)))]
                  else [])"
  let ?supp = "(if pd \<and> last_result env (getLView st) e (listenerFn # fs) Undefined = JBool False
                    then [PreventDefault e, SetReturnValue e False] else [])"
  have w: "wrapListenerIn_markDirtyAndPreventDefault env st k tn listenerFn pd e =
         Some (?marks @ run_handlers env (getLView st) e (listenerFn # fs) @ ?supp,
               last_result env (getLView st) e (listenerFn # fs) Undefined)"
    by (rule wrapper_chain [OF c])
  have inv: "invocations (?marks @ run_handlers env (getLView st) e (listenerFn # fs) @ ?supp)
               = listenerFn # fs"
    by simp
  have shape: "?marks @ run_handlers env (getLView st) e (listenerFn # fs) @ ?supp
        = (?marks @ run_handlers env (getLView st) e pre)
          @ [Invoke f e, HandleError (lview_id (getLView st)) err]
          @ (run_handlers env (getLView st) e post @ ?supp)"
    by (simp only: run append_assoc)
  from w inv shape ex res show ?thesis by blast
qed

lemmas example_defs =
  example_env_def element_tNode_def component_tNode_def fresh_lView_def fresh_state_def
  manual_state_def chained_state_def

theorem dispatch_marks_view_witness:
  "(\<exists>tr r. wrapListenerIn_markDirtyAndPreventDefault example_env fresh_state 0 element_tNode
               (ListenerFn 1) False 7 = Some (tr, r) \<and> dirty_marks tr = [ThisLView 0])
   \<and> (\<exists>tr r. wrapListenerIn_markDirtyAndPreventDefault example_env fresh_state 0 component_tNode
               (ListenerFn 1) False 7 = Some (tr, r) \<and> dirty_marks tr = [ComponentView 1 0])
   \<and> (\<exists>tr r. wrapListenerIn_markDirtyAndPreventDefault example_env manual_state 0 component_tNode
               (ListenerFn 1) False 7 = Some (tr, r) \<and> dirty_marks tr = [])"
proof -
  have c1: "chain (ngNextListenerFn fresh_state)
              (ngNextListenerFn fresh_state (WrapListenerIn 0 element_tNode (ListenerFn 1) False)) []"
    by (simp add: fresh_state_def)
  have c2: "chain (ngNextListenerFn fresh_state)
              (ngNextListenerFn fresh_state (WrapListenerIn 0 component_tNode (ListenerFn 1) False)) []"
    by (simp add: fresh_state_def)
  have c3: "chain (ngNextListenerFn manual_state)
              (ngNextListenerFn manual_state (WrapListenerIn 0 component_tNode (ListenerFn 1) False)) []"
    by (simp add: manual_state_def fresh_state_def)
  have e1: "(if FLAGS (getLView fresh_state) AND LViewFlags_ManualOnPush example_env \<noteq> 0 then []
             else if flags element_tNode AND TNodeFlags_isComponent example_env \<noteq> 0
                  then [getComponentViewByIndex (index element_tNode) (getLView fresh_state)]
                  else [ThisLView (lview_id (getLView fresh_state))]) = [ThisLView 0]"
    by (simp add: example_defs)
  have e2: "(if FLAGS (getLView fresh_state) AND LViewFlags_ManualOnPush example_env \<noteq> 0 then []
             else if flags component_tNode AND TNodeFlags_isComponent example_env \<noteq> 0
                  then [getComponentViewByIndex (index component_tNode) (getLView fresh_state)]
                  else [ThisLView (lview_id (getLView fresh_state))]) = [ComponentView 1 0]"
    by (simp add: example_defs getComponentViewByIndex_def)
  have e3: "(if FLAGS (getLView manual_state) AND LViewFlags_ManualOnPush example_env \<noteq> 0 then []
             else if flags component_tNode AND TNodeFlags_isComponent example_env \<noteq> 0
                  then [getComponentViewByIndex (index component_tNode) (getLView manual_state)]
                  else [ThisLView (lview_id (getLView manual_state))]) = []"
    by (simp add: example_defs)
  from dispatch_marks_view
         [of example_env fresh_state 0 element_tNode "ListenerFn 1" False 7, unfolded e1] c1
  have 1: "\<exists>tr r. wrapListenerIn_markDirtyAndPreventDefault example_env fresh_state 0 element_tNode
               (ListenerFn 1) False 7 = Some (tr, r) \<and> dirty_marks tr = [ThisLView 0]"
    by blast
  from dispatch_marks_view
         [of example_env fresh_state 0 component_tNode "ListenerFn 1" False 7, unfolded e2] c2
  have 2: "\<exists>tr r. wrapListenerIn_markDirtyAndPreventDefault example_env fresh_state 0 component_tNode
               (ListenerFn 1) False 7 = Some (tr, r) \<and> dirty_marks tr = [ComponentView 1 0]"
    by blast
  from dispatch_marks_view
         [of example_env manual_state 0 component_tNode "ListenerFn 1" False 7, unfolded e3] c3
  have 3: "\<exists>tr r. wrapListenerIn_markDirtyAndPreventDefault example_env manual_state 0 component_tNode
               (ListenerFn 1) False 7 = Some (tr, r) \<and> dirty_marks tr = []"
    by blast
  from 1 2 3 show ?thesis by blast
qed

theorem dirty_mark_precedes_handlers_witness:
  "FLAGS (getLView chained_state) AND LViewFlags_ManualOnPush example_env = 0
   \<and> (\<exists>tr r rest.
         wrapListenerIn_markDirtyAndPreventDefault example_env chained_state 0 element_tNode
           (ListenerFn 1) False 7 = Some (tr, r)
       \<and> tr = MarkViewDirty (ThisLView 0) # rest \<and> dirty_marks rest = []
       \<and> invocations rest = invocations tr \<and> invocations tr \<noteq> [])"
proof -
  have m: "FLAGS (getLView chained_state) AND LViewFlags_ManualOnPush example_env = 0"
    by (simp add: example_defs)
  have c: "chain (ngNextListenerFn chained_state)
             (ngNextListenerFn chained_state (WrapListenerIn 0 element_tNode (ListenerFn 1) False))
             [ListenerFn 3, ListenerFn 2]"
    by (simp add: example_defs)
  have v: "(if flags element_tNode AND TNodeFlags_isComponent example_env \<noteq> 0
            then getComponentViewByIndex (index element_tNode) (getLView chained_state)
            else ThisLView (lview_id (getLView chained_state))) = ThisLView 0"
    by (simp add: example_defs)
  from dirty_mark_precedes_handlers
         [OF m, of 0 element_tNode "ListenerFn 1" False 7, unfolded v] c
  have "\<exists>tr r rest.
         wrapListenerIn_markDirtyAndPreventDefault example_env chained_state 0 element_tNode
           (ListenerFn 1) False 7 = Some (tr, r)
       \<and> tr = MarkViewDirty (ThisLView 0) # rest \<and> dirty_marks rest = []
       \<and> invocations rest = invocations tr \<and> invocations tr \<noteq> []"
    by blast
  with m show ?thesis by blast
qed

lemma chained_chain:
  "chain (ngNextListenerFn chained_state)
     (ngNextListenerFn chained_state (WrapListenerIn 0 element_tNode (ListenerFn 1) False))
     [ListenerFn 3, ListenerFn 2]"
  by (simp add: example_defs)

theorem throwing_handler_is_isolated_witness:
  "\<exists>tr r before after.
      wrapListenerIn_markDirtyAndPreventDefault example_env chained_state 0 element_tNode
        (ListenerFn 1) False 7 = Some (tr, r)
    \<and> invocations tr = [ListenerFn 1, ListenerFn 3, ListenerFn 2]
    \<and> tr = before @ [Invoke (ListenerFn 3) 7, HandleError 0 (JStr ''boom'')] @ after
    \<and> r = Undefined"
proof -
  have f: "ListenerFn 3 \<in> set [ListenerFn 1, ListenerFn 3, ListenerFn 2]" by simp
  have t: "handler example_env (ListenerFn 3) 7 = Throws (JStr ''boom'')"
    by (simp add: example_defs)
  have l: "lview_id (getLView chained_state) = 0" by (simp add: example_defs)
  have r: "snd (executeListenerWithErrorHandling example_env (getLView chained_state)
                  (last [ListenerFn 1, ListenerFn 3, ListenerFn 2]) 7) = Undefined"
    by (simp add: example_defs executeListenerWithErrorHandling_def)
  from throwing_handler_is_isolated [OF chained_chain f t]
  show ?thesis unfolding l r by blast
qed

subsection \<open>The steps of the installer\<close>

lemma native_effects_append [simp]:
  "native_effects (xs @ ys) = native_effects xs @ native_effects ys"
  by (induction xs rule: native_effects.induct) simp_all

lemma subscriptions_append [simp]:
  "subscriptions (xs @ ys) = subscriptions xs @ subscriptions ys"
  by (induction xs rule: subscriptions.induct) simp_all

lemma fst_getCleanup: "fst (getCleanup v) = or_empty (CLEANUP v)"
  by (simp add: getCleanup_def split: option.splits)

lemma snd_getCleanup: "snd (getCleanup v) = v\<lparr>CLEANUP := Some (or_empty (CLEANUP v))\<rparr>"
  by (simp add: getCleanup_def split: option.splits)

lemma emit_simps [simp]:
  "effects (emit x st) = effects st @ [x]"
  "ngNextListenerFn (emit x st) = ngNextListenerFn st"
  "allocated (emit x st) = allocated st"
  "ngDevMode (emit x st) = ngDevMode st"
  "getPreviousOrParentTNode (emit x st) = getPreviousOrParentTNode st"
  "getLView (emit x st) = getLView st"
  by (simp_all add: emit_def)

lemma count_simps [simp]:
  "effects (count_rendererAddEventListener st) = effects st"
  "ngNextListenerFn (count_rendererAddEventListener st) = ngNextListenerFn st"
  "allocated (count_rendererAddEventListener st) = allocated st"
  "ngDevMode (count_rendererAddEventListener st) = map_option Suc (ngDevMode st)"
  "getPreviousOrParentTNode (count_rendererAddEventListener st) = getPreviousOrParentTNode st"
  "getLView (count_rendererAddEventListener st) = getLView st"
  by (simp_all add: count_rendererAddEventListener_def)

lemma lCleanup_push_simps [simp]:
  "effects (lCleanup_push xs st) = effects st"
  "ngNextListenerFn (lCleanup_push xs st) = ngNextListenerFn st"
  "allocated (lCleanup_push xs st) = allocated st"
  "ngDevMode (lCleanup_push xs st) = ngDevMode st"
  "getPreviousOrParentTNode (lCleanup_push xs st) = getPreviousOrParentTNode st"
  "getLView (lCleanup_push xs st) =
     (getLView st)\<lparr>CLEANUP := Some (or_empty (CLEANUP (getLView st)) @ xs)\<rparr>"
  by (simp_all add: lCleanup_push_def fst_getCleanup)

lemma tCleanup_push_simps [simp]:
  "effects (tCleanup_push xs st) = effects st"
  "ngNextListenerFn (tCleanup_push xs st) = ngNextListenerFn st"
  "allocated (tCleanup_push xs st) = allocated st"
  "ngDevMode (tCleanup_push xs st) = ngDevMode st"
  "getPreviousOrParentTNode (tCleanup_push xs st) = getPreviousOrParentTNode st"
  "CLEANUP (getLView (tCleanup_push xs st)) = CLEANUP (getLView st)"
  "slots (getLView (tCleanup_push xs st)) = slots (getLView st)"
  "lview_id (getLView (tCleanup_push xs st)) = lview_id (getLView st)"
  "FLAGS (getLView (tCleanup_push xs st)) = FLAGS (getLView st)"
  "RENDERER (getLView (tCleanup_push xs st)) = RENDERER (getLView st)"
  "firstTemplatePass (TVIEW (getLView (tCleanup_push xs st)))
     = firstTemplatePass (TVIEW (getLView st))"
  by (simp_all add: tCleanup_push_def Let_def)

lemma tCleanup_push_cleanup:
  "cleanup (TVIEW (getLView (tCleanup_push xs st))) =
     (if firstTemplatePass (TVIEW (getLView st))
      then Some (or_empty (cleanup (TVIEW (getLView st))) @ xs)
      else cleanup (TVIEW (getLView st)))"
  by (simp add: tCleanup_push_def Let_def)

lemma wrapListener_simps [simp]:
  "fst (wrapListener tn h pd st) = WrapListenerIn (allocated st) tn h pd"
  "snd (wrapListener tn h pd st) = st\<lparr>allocated := Suc (allocated st)\<rparr>"
  by (simp_all add: wrapListener_def)

lemma subscribe_output_effects [simp]:
  "effects (subscribe_output ev fn s st) = effects st @ [OutputSubscribe s fn]"
  by (simp add: subscribe_output_def Let_def fst_getCleanup)

lemma subscribe_output_ngNext [simp]:
  "ngNextListenerFn (subscribe_output ev fn s st) = ngNextListenerFn st"
  by (simp add: subscribe_output_def Let_def fst_getCleanup)

lemma subscribe_output_allocated [simp]:
  "allocated (subscribe_output ev fn s st) = Suc (allocated st)"
  by (simp add: subscribe_output_def Let_def fst_getCleanup)

lemma subscribe_output_ngDevMode [simp]:
  "ngDevMode (subscribe_output ev fn s st) = ngDevMode st"
  by (simp add: subscribe_output_def Let_def fst_getCleanup)

lemma subscribe_output_tNode [simp]:
  "getPreviousOrParentTNode (subscribe_output ev fn s st) = getPreviousOrParentTNode st"
  by (simp add: subscribe_output_def Let_def fst_getCleanup)

lemma subscribe_output_view [simp]:
  "slots (getLView (subscribe_output ev fn s st)) = slots (getLView st)"
  "lview_id (getLView (subscribe_output ev fn s st)) = lview_id (getLView st)"
  "FLAGS (getLView (subscribe_output ev fn s st)) = FLAGS (getLView st)"
  "RENDERER (getLView (subscribe_output ev fn s st)) = RENDERER (getLView st)"
  "firstTemplatePass (TVIEW (getLView (subscribe_output ev fn s st)))
     = firstTemplatePass (TVIEW (getLView st))"
  by (simp_all add: subscribe_output_def Let_def fst_getCleanup)

lemma subscribe_output_CLEANUP:
  "CLEANUP (getLView (subscribe_output ev fn s st)) =
     Some (or_empty (CLEANUP (getLView st)) @ [Ref fn, Ref (Subscription (allocated st))])"
  by (simp add: subscribe_output_def Let_def fst_getCleanup)

lemma subscribe_output_cleanup:
  "cleanup (TVIEW (getLView (subscribe_output ev fn s st))) =
     (if firstTemplatePass (TVIEW (getLView st))
      then Some (or_empty (cleanup (TVIEW (getLView st)))
                 @ [JStr ev, JNum (int (index (getPreviousOrParentTNode st))),
                    JNum (int (length (or_empty (CLEANUP (getLView st))))),
                    JNum (- (int (length (or_empty (CLEANUP (getLView st)))) + 1))])
      else cleanup (TVIEW (getLView st)))"
  by (simp add: subscribe_output_def Let_def fst_getCleanup tCleanup_push_cleanup)

lemma output_stream_subscribe_output [simp]:
  "output_stream (getLView (subscribe_output ev fn s st)) = output_stream (getLView st)"
  by (rule ext) (simp add: output_stream_def split: prod.splits)

subsection \<open>The output loop\<close>

lemma subscribe_loop_Some:
  "output_stream (getLView st) p = Some s \<Longrightarrow>
   subscribe_loop ev fn (p # props) st = subscribe_loop ev fn props (subscribe_output ev fn s st)"
  by (cases p) (auto simp add: output_stream_def split: if_splits option.splits member.splits)

lemma subscribe_loop_None:
  "output_stream (getLView st) p = None \<Longrightarrow>
   \<exists>err. subscribe_loop ev fn (p # props) st = Inl (err, st)"
  by (cases p) (auto simp add: output_stream_def split: if_splits option.splits member.splits)

lemma subscribe_loop_not_observable:
  "i < length (slots (getLView st)) \<Longrightarrow> slots (getLView st) ! i = Some d \<Longrightarrow>
   \<not> isObservable (members d minifiedName) \<Longrightarrow>
   subscribe_loop ev fn ((i, publicName, minifiedName) # props) st =
     Inl (if ngDevMode st = None then TypeError
          else Error (not_initialized minifiedName (constructor_name d)), st)"
  by (cases "members d minifiedName" rule: isObservable.cases) auto

lemma subscribe_loop_prefix:
  "map (output_stream (getLView st)) pre = map Some ss \<Longrightarrow>
   subscribe_loop ev fn (pre @ rest) st = subscribe_loop ev fn rest (subscribe_all ev fn ss st)"
proof (induction pre arbitrary: ss st)
  case Nil
  then show ?case by simp
next
  case (Cons p pre)
  then obtain s ss' where ss: "ss = s # ss'" and p: "output_stream (getLView st) p = Some s"
    and rest: "map (output_stream (getLView st)) pre = map Some ss'"
    by (cases ss) auto
  have "map (output_stream (getLView (subscribe_output ev fn s st))) pre = map Some ss'"
    using rest by simp
  from Cons.IH [OF this] show ?case
    by (simp add: ss subscribe_loop_Some [OF p])
qed

lemma subscribe_loop_success:
  "subscribe_loop ev fn props st = Inr st' \<Longrightarrow>
   \<exists>ss. map (output_stream (getLView st)) props = map Some ss \<and> st' = subscribe_all ev fn ss st"
proof (induction props arbitrary: st)
  case Nil
  then show ?case by simp
next
  case (Cons p props)
  show ?case
  proof (cases "output_stream (getLView st) p")
    case None
    from subscribe_loop_None [OF this, of ev fn props] Cons.prems show ?thesis by auto
  next
    case (Some s)
    with Cons.prems have "subscribe_loop ev fn props (subscribe_output ev fn s st) = Inr st'"
      by (simp add: subscribe_loop_Some)
    from Cons.IH [OF this] obtain ss where
      "map (output_stream (getLView st)) props = map Some ss"
      "st' = subscribe_all ev fn ss (subscribe_output ev fn s st)" by auto
    then have "map (output_stream (getLView st)) (p # props) = map Some (s # ss)
                 \<and> st' = subscribe_all ev fn (s # ss) st"
      using Some by simp
    then show ?thesis by blast
  qed
qed

lemma subscribe_all_effects [simp]:
  "effects (subscribe_all ev fn ss st) = effects st @ map (\<lambda>s. OutputSubscribe s fn) ss"
  by (induction ss arbitrary: st) simp_all

lemma subscribe_all_ngNext [simp]:
  "ngNextListenerFn (subscribe_all ev fn ss st) = ngNextListenerFn st"
  by (induction ss arbitrary: st) simp_all

lemma subscribe_all_allocated [simp]:
  "allocated (subscribe_all ev fn ss st) = allocated st + length ss"
  by (induction ss arbitrary: st) simp_all

lemma subscribe_all_ngDevMode [simp]:
  "ngDevMode (subscribe_all ev fn ss st) = ngDevMode st"
  by (induction ss arbitrary: st) simp_all

lemma subscribe_all_tNode [simp]:
  "getPreviousOrParentTNode (subscribe_all ev fn ss st) = getPreviousOrParentTNode st"
  by (induction ss arbitrary: st) simp_all

lemma subscribe_all_view [simp]:
  "slots (getLView (subscribe_all ev fn ss st)) = slots (getLView st)"
  "lview_id (getLView (subscribe_all ev fn ss st)) = lview_id (getLView st)"
  "FLAGS (getLView (subscribe_all ev fn ss st)) = FLAGS (getLView st)"
  "RENDERER (getLView (subscribe_all ev fn ss st)) = RENDERER (getLView st)"
  "firstTemplatePass (TVIEW (getLView (subscribe_all ev fn ss st)))
     = firstTemplatePass (TVIEW (getLView st))"
  by (induction ss arbitrary: st) simp_all

lemma subscription_records_Suc:
  "subscription_records fn a (Suc n) = [Ref fn, Ref (Subscription a)] @ subscription_records fn (Suc a) n"
proof -
  have "[0..<Suc n] = 0 # map Suc [0..<n]"
    by (simp add: upt_conv_Cons map_Suc_upt del: upt_Suc)
  then show ?thesis
    by (simp add: subscription_records_def comp_def del: upt_Suc)
qed

lemma subscription_records_0 [simp]: "subscription_records fn a 0 = []"
  by (simp add: subscription_records_def)

lemma subscribe_all_CLEANUP:
  "CLEANUP (getLView st) = Some lc \<Longrightarrow>
   CLEANUP (getLView (subscribe_all ev fn ss st)) =
     Some (lc @ subscription_records fn (allocated st) (length ss))"
proof (induction ss arbitrary: st lc)
  case Nil
  then show ?case by simp
next
  case (Cons s ss)
  have "CLEANUP (getLView (subscribe_output ev fn s st))
          = Some (lc @ [Ref fn, Ref (Subscription (allocated st))])"
    using Cons.prems by (simp add: subscribe_output_CLEANUP)
  from Cons.IH [OF this] show ?case
    by (simp add: subscription_records_Suc)
qed

lemma subscribe_all_cleanup:
  "cleanup (TVIEW (getLView st)) = Some tc \<Longrightarrow>
   \<exists>xs. cleanup (TVIEW (getLView (subscribe_all ev fn ss st))) = Some (tc @ xs)"
proof (induction ss arbitrary: st tc)
  case Nil
  then show ?case by simp
next
  case (Cons s ss)
  have "\<exists>ys. cleanup (TVIEW (getLView (subscribe_output ev fn s st))) = Some (tc @ ys)"
  proof (cases "firstTemplatePass (TVIEW (getLView st))")
    case True
    then show ?thesis using Cons.prems by (simp add: subscribe_output_cleanup)
  next
    case False
    then have "cleanup (TVIEW (getLView (subscribe_output ev fn s st))) = Some (tc @ [])"
      using Cons.prems by (simp add: subscribe_output_cleanup)
    then show ?thesis ..
  qed
  then obtain ys where
    "cleanup (TVIEW (getLView (subscribe_output ev fn s st))) = Some (tc @ ys)" ..
  from Cons.IH [OF this] show ?case by auto
qed

lemma subscribeOutputs_unfold:
  "subscribeOutputs env ev fn st =
     (if output_props env ev (getPreviousOrParentTNode st) = [] then Inr (cache_outputs env st)
      else subscribe_loop ev fn (output_props env ev (getPreviousOrParentTNode st))
             ((cache_outputs env st)\<lparr>getLView :=
                 (getLView st)\<lparr>CLEANUP := Some (or_empty (CLEANUP (getLView st)))\<rparr>\<rparr>))"
  by (auto simp add: subscribeOutputs_def cache_outputs_def output_props_def Let_def
        snd_getCleanup split: option.splits)

lemma cache_outputs_simps [simp]:
  "effects (cache_outputs env st) = effects st"
  "ngNextListenerFn (cache_outputs env st) = ngNextListenerFn st"
  "allocated (cache_outputs env st) = allocated st"
  "ngDevMode (cache_outputs env st) = ngDevMode st"
  "getLView (cache_outputs env st) = getLView st"
  "type (getPreviousOrParentTNode (cache_outputs env st)) = type (getPreviousOrParentTNode st)"
  "index (getPreviousOrParentTNode (cache_outputs env st)) = index (getPreviousOrParentTNode st)"
  "flags (getPreviousOrParentTNode (cache_outputs env st)) = flags (getPreviousOrParentTNode st)"
  by (simp_all add: cache_outputs_def Let_def)

subsection \<open>The native listener\<close>

lemma with_cleanup_simps [simp]:
  "effects (with_cleanup res st) = effects st"
  "ngNextListenerFn (with_cleanup res st) = ngNextListenerFn st"
  "ngDevMode (with_cleanup res st) = ngDevMode st"
  "getPreviousOrParentTNode (with_cleanup res st) = getPreviousOrParentTNode st"
  "getLView (with_cleanup res st) =
     (getLView st)\<lparr>CLEANUP := Some (or_empty (CLEANUP (getLView st)))\<rparr>"
  "allocated (with_cleanup None st) = allocated st"
  "allocated (with_cleanup (Some r) st) = Suc (allocated st)"
  by (simp_all add: with_cleanup_def)

lemma addNativeListener_unfold:
  "addNativeListener ev h uc res ldr st =
     (if isProceduralRenderer (effective_renderer ldr st) then
        (case (case res of Some resolver \<Rightarrow> Inr Null
               | None \<Rightarrow> findExistingListener (getLView (with_cleanup res st)) ev
                          (index (getPreviousOrParentTNode st))) of
           Inl err \<Rightarrow> Inl (err, with_cleanup res st)
         | Inr existingListener \<Rightarrow>
             if existingListener \<noteq> Null then attach_coalesced existingListener h (with_cleanup res st)
             else Inr (listen_with_renderer (effective_renderer ldr st)
                         (listen_target_of res (index (getPreviousOrParentTNode st))) ev h
                         (idxOrTargetGetter_of res st)
                         (length (or_empty (CLEANUP (getLView st)))) (with_cleanup res st)))
      else Inr (addEventListener_to (target_of res (index (getPreviousOrParentTNode st))) ev h uc
                  (idxOrTargetGetter_of res st)
                  (length (or_empty (CLEANUP (getLView st)))) (with_cleanup res st)))"
proof (cases res)
  case None
  then show ?thesis
    by (simp add: addNativeListener_def Let_def effective_renderer_def listen_target_of_def
          target_of_def with_cleanup_def idxOrTargetGetter_of_def fst_getCleanup snd_getCleanup
          split: sum.splits)
next
  case (Some resolver)
  then show ?thesis
    by (simp add: addNativeListener_def Let_def effective_renderer_def listen_target_of_def
          target_of_def with_cleanup_def idxOrTargetGetter_of_def fst_getCleanup snd_getCleanup
          split: sum.splits)
qed

lemma listen_with_renderer_simps [simp]:
  "fst (listen_with_renderer rnd tgt ev h g L st)
     = WrapListenerIn (allocated st) (getPreviousOrParentTNode st) h False"
  "effects (snd (listen_with_renderer rnd tgt ev h g L st))
     = effects st @ [RendererListen rnd tgt ev
                       (WrapListenerIn (allocated st) (getPreviousOrParentTNode st) h False)]"
  "ngNextListenerFn (snd (listen_with_renderer rnd tgt ev h g L st)) = ngNextListenerFn st"
  "allocated (snd (listen_with_renderer rnd tgt ev h g L st)) = Suc (Suc (allocated st))"
  "ngDevMode (snd (listen_with_renderer rnd tgt ev h g L st)) = map_option Suc (ngDevMode st)"
  "getPreviousOrParentTNode (snd (listen_with_renderer rnd tgt ev h g L st))
     = getPreviousOrParentTNode st"
  "CLEANUP (getLView (snd (listen_with_renderer rnd tgt ev h g L st)))
     = Some (or_empty (CLEANUP (getLView st))
             @ [Ref (WrapListenerIn (allocated st) (getPreviousOrParentTNode st) h False),
                Ref (CleanupFn (Suc (allocated st)))])"
  "slots (getLView (snd (listen_with_renderer rnd tgt ev h g L st))) = slots (getLView st)"
  "lview_id (getLView (snd (listen_with_renderer rnd tgt ev h g L st))) = lview_id (getLView st)"
  "FLAGS (getLView (snd (listen_with_renderer rnd tgt ev h g L st))) = FLAGS (getLView st)"
  "RENDERER (getLView (snd (listen_with_renderer rnd tgt ev h g L st))) = RENDERER (getLView st)"
  "firstTemplatePass (TVIEW (getLView (snd (listen_with_renderer rnd tgt ev h g L st))))
     = firstTemplatePass (TVIEW (getLView st))"
  by (simp_all add: listen_with_renderer_def Let_def)

lemma listen_with_renderer_cleanup:
  "cleanup (TVIEW (getLView (snd (listen_with_renderer rnd tgt ev h g L st)))) =
     (if firstTemplatePass (TVIEW (getLView st))
      then Some (or_empty (cleanup (TVIEW (getLView st)))
                 @ [JStr ev, g, JNum (int L), JNum (int L + 1)])
      else cleanup (TVIEW (getLView st)))"
  by (simp add: listen_with_renderer_def Let_def tCleanup_push_cleanup)

lemma addEventListener_to_simps [simp]:
  "fst (addEventListener_to tgt ev h uc g L st)
     = WrapListenerIn (allocated st) (getPreviousOrParentTNode st) h True"
  "effects (snd (addEventListener_to tgt ev h uc g L st))
     = effects st @ [AddEventListener tgt ev
                       (WrapListenerIn (allocated st) (getPreviousOrParentTNode st) h True) uc]"
  "ngNextListenerFn (snd (addEventListener_to tgt ev h uc g L st)) = ngNextListenerFn st"
  "allocated (snd (addEventListener_to tgt ev h uc g L st)) = Suc (allocated st)"
  "ngDevMode (snd (addEventListener_to tgt ev h uc g L st)) = map_option Suc (ngDevMode st)"
  "getPreviousOrParentTNode (snd (addEventListener_to tgt ev h uc g L st))
     = getPreviousOrParentTNode st"
  "CLEANUP (getLView (snd (addEventListener_to tgt ev h uc g L st)))
     = Some (or_empty (CLEANUP (getLView st))
             @ [Ref (WrapListenerIn (allocated st) (getPreviousOrParentTNode st) h True)])"
  "slots (getLView (snd (addEventListener_to tgt ev h uc g L st))) = slots (getLView st)"
  "lview_id (getLView (snd (addEventListener_to tgt ev h uc g L st))) = lview_id (getLView st)"
  "FLAGS (getLView (snd (addEventListener_to tgt ev h uc g L st))) = FLAGS (getLView st)"
  "RENDERER (getLView (snd (addEventListener_to tgt ev h uc g L st))) = RENDERER (getLView st)"
  "firstTemplatePass (TVIEW (getLView (snd (addEventListener_to tgt ev h uc g L st))))
     = firstTemplatePass (TVIEW (getLView st))"
  by (simp_all add: addEventListener_to_def Let_def)

lemma attach_coalesced_effects:
  "attach_coalesced x h st = Inl (err, st') \<Longrightarrow> effects st' = effects st"
  "attach_coalesced x h st = Inr (fn, st') \<Longrightarrow> effects st' = effects st \<and> fn = h"
  by (auto simp add: attach_coalesced_def split: jsval.splits)

lemma attach_coalesced_Ref:
  "attach_coalesced (Ref r) h st =
     Inr (h, st\<lparr>ngNextListenerFn :=
                  ((ngNextListenerFn st)(h := ngNextListenerFn st r))(r \<mapsto> h)\<rparr>)"
  by (simp add: attach_coalesced_def)

lemma outputs_start_simps [simp]:
  "effects (outputs_start env ev st) = effects st"
  "ngNextListenerFn (outputs_start env ev st) = ngNextListenerFn st"
  "allocated (outputs_start env ev st) = allocated st"
  "ngDevMode (outputs_start env ev st) = ngDevMode st"
  "type (getPreviousOrParentTNode (outputs_start env ev st)) = type (getPreviousOrParentTNode st)"
  "index (getPreviousOrParentTNode (outputs_start env ev st)) = index (getPreviousOrParentTNode st)"
  "flags (getPreviousOrParentTNode (outputs_start env ev st)) = flags (getPreviousOrParentTNode st)"
  "slots (getLView (outputs_start env ev st)) = slots (getLView st)"
  "lview_id (getLView (outputs_start env ev st)) = lview_id (getLView st)"
  "FLAGS (getLView (outputs_start env ev st)) = FLAGS (getLView st)"
  "RENDERER (getLView (outputs_start env ev st)) = RENDERER (getLView st)"
  "TVIEW (getLView (outputs_start env ev st)) = TVIEW (getLView st)"
  "or_empty (CLEANUP (getLView (outputs_start env ev st))) = or_empty (CLEANUP (getLView st))"
  by (simp_all add: outputs_start_def)

lemma outputs_start_CLEANUP_Some:
  "CLEANUP (getLView st) = Some lc \<Longrightarrow> CLEANUP (getLView (outputs_start env ev st)) = Some lc"
  by (simp add: outputs_start_def)

lemma output_stream_outputs_start [simp]:
  "output_stream (getLView (outputs_start env ev st)) = output_stream (getLView st)"
  by (rule ext) (simp add: output_stream_def split: prod.splits)

lemma subscribeOutputs_start:
  "subscribeOutputs env ev fn st =
     (if output_props env ev (getPreviousOrParentTNode st) = [] then Inr (outputs_start env ev st)
      else subscribe_loop ev fn (output_props env ev (getPreviousOrParentTNode st))
             (outputs_start env ev st))"
  by (simp add: subscribeOutputs_unfold outputs_start_def)

lemma subscribe_loop_result:
  "\<exists>ss. result_state (subscribe_loop ev fn props st) = subscribe_all ev fn ss st"
proof (induction props arbitrary: st)
  case Nil
  have "result_state (subscribe_loop ev fn [] st) = subscribe_all ev fn [] st"
    by (simp add: result_state_def)
  then show ?case ..
next
  case (Cons p props)
  show ?case
  proof (cases "output_stream (getLView st) p")
    case None
    from subscribe_loop_None [OF this, of ev fn props]
    have "result_state (subscribe_loop ev fn (p # props) st) = subscribe_all ev fn [] st"
      by (auto simp add: result_state_def)
    then show ?thesis ..
  next
    case (Some s)
    from Cons.IH [of "subscribe_output ev fn s st"] obtain ss where
      "result_state (subscribe_loop ev fn props (subscribe_output ev fn s st))
         = subscribe_all ev fn ss (subscribe_output ev fn s st)" ..
    then have "result_state (subscribe_loop ev fn (p # props) st) = subscribe_all ev fn (s # ss) st"
      by (simp add: subscribe_loop_Some [OF Some])
    then show ?thesis ..
  qed
qed

lemma subscribeOutputs_result:
  "\<exists>ss. result_state (subscribeOutputs env ev fn st)
          = subscribe_all ev fn ss (outputs_start env ev st)"
proof (cases "output_props env ev (getPreviousOrParentTNode st) = []")
  case True
  then have "result_state (subscribeOutputs env ev fn st)
               = subscribe_all ev fn [] (outputs_start env ev st)"
    by (simp add: subscribeOutputs_start result_state_def)
  then show ?thesis ..
next
  case False
  then show ?thesis by (simp add: subscribeOutputs_start subscribe_loop_result)
qed

lemma subscribeOutputs_success:
  assumes "subscribeOutputs env ev fn st = Inr st'"
  shows "\<exists>ss. map (output_stream (getLView st)) (output_props env ev (getPreviousOrParentTNode st))
                 = map Some ss
              \<and> st' = subscribe_all ev fn ss (outputs_start env ev st)"
proof (cases "output_props env ev (getPreviousOrParentTNode st) = []")
  case True
  with assms have "map (output_stream (getLView st))
                     (output_props env ev (getPreviousOrParentTNode st)) = map Some []
                   \<and> st' = subscribe_all ev fn [] (outputs_start env ev st)"
    by (simp add: subscribeOutputs_start)
  then show ?thesis ..
next
  case False
  with assms have "subscribe_loop ev fn (output_props env ev (getPreviousOrParentTNode st))
             (outputs_start env ev st) = Inr st'"
    by (simp add: subscribeOutputs_start)
  from subscribe_loop_success [OF this] show ?thesis by simp
qed

lemma native_effects_subscribed [simp]:
  "native_effects (map (\<lambda>s. OutputSubscribe s fn) ss) = []"
  by (induction ss) simp_all

lemma subscriptions_subscribed [simp]:
  "subscriptions (map (\<lambda>s. OutputSubscribe s fn) ss) = map (\<lambda>s. (s, fn)) ss"
  by (induction ss) simp_all

subsection \<open>One call of the installer\<close>

lemma listenerInternal_unfold:
  "listenerInternal env ev h uc res ldr st =
     (if ngDevMode st \<noteq> None
          \<and> type (getPreviousOrParentTNode st) \<notin> {Element, Container, ElementContainer}
      then Inl (AssertionError, init_tCleanup st)
      else if type (getPreviousOrParentTNode st) = Element
      then (case addNativeListener ev h uc res ldr (init_tCleanup st) of
              Inl failure \<Rightarrow> Inl failure
            | Inr (fn, st2) \<Rightarrow> subscribeOutputs env ev fn st2)
      else subscribeOutputs env ev h (init_tCleanup st))"
  by (simp add: listenerInternal_def Let_def init_tCleanup_def)

lemma init_tCleanup_simps [simp]:
  "effects (init_tCleanup st) = effects st"
  "ngNextListenerFn (init_tCleanup st) = ngNextListenerFn st"
  "allocated (init_tCleanup st) = allocated st"
  "ngDevMode (init_tCleanup st) = ngDevMode st"
  "getPreviousOrParentTNode (init_tCleanup st) = getPreviousOrParentTNode st"
  "CLEANUP (getLView (init_tCleanup st)) = CLEANUP (getLView st)"
  "slots (getLView (init_tCleanup st)) = slots (getLView st)"
  "lview_id (getLView (init_tCleanup st)) = lview_id (getLView st)"
  "FLAGS (getLView (init_tCleanup st)) = FLAGS (getLView st)"
  "RENDERER (getLView (init_tCleanup st)) = RENDERER (getLView st)"
  "firstTemplatePass (TVIEW (getLView (init_tCleanup st)))
     = firstTemplatePass (TVIEW (getLView st))"
  by (simp_all add: init_tCleanup_def)

lemma init_tCleanup_cleanup:
  "cleanup (TVIEW (getLView (init_tCleanup st))) =
     (if firstTemplatePass (TVIEW (getLView st))
      then Some (or_empty (cleanup (TVIEW (getLView st))))
      else cleanup (TVIEW (getLView st)))"
  by (simp add: init_tCleanup_def tCleanup_push_cleanup)

text \<open>What the native part of one call does, by cases.\<close>

lemma addNativeListener_cases:
  assumes "addNativeListener ev h uc res ldr st = R"
  shows "(\<exists>err. R = Inl (err, with_cleanup res st) \<and> res = None
            \<and> isProceduralRenderer (effective_renderer ldr st)
            \<and> findExistingListener (getLView (with_cleanup res st)) ev
                 (index (getPreviousOrParentTNode st)) = Inl err)
       \<or> (\<exists>x. x \<noteq> Null \<and> res = None \<and> isProceduralRenderer (effective_renderer ldr st)
            \<and> findExistingListener (getLView (with_cleanup res st)) ev
                 (index (getPreviousOrParentTNode st)) = Inr x
            \<and> R = attach_coalesced x h (with_cleanup res st))
       \<or> (isProceduralRenderer (effective_renderer ldr st)
            \<and> (res = None \<longrightarrow> findExistingListener (getLView (with_cleanup res st)) ev
                 (index (getPreviousOrParentTNode st)) = Inr Null)
            \<and> R = Inr (listen_with_renderer (effective_renderer ldr st)
                         (listen_target_of res (index (getPreviousOrParentTNode st))) ev h
                         (idxOrTargetGetter_of res st)
                         (length (or_empty (CLEANUP (getLView st)))) (with_cleanup res st)))
       \<or> (\<not> isProceduralRenderer (effective_renderer ldr st)
            \<and> R = Inr (addEventListener_to (target_of res (index (getPreviousOrParentTNode st)))
                         ev h uc (idxOrTargetGetter_of res st)
                         (length (or_empty (CLEANUP (getLView st)))) (with_cleanup res st)))"
  using assms unfolding addNativeListener_unfold
  by (auto split: if_splits sum.splits option.splits)

lemma wrapper_suppressions:
  assumes "wrapListenerIn_markDirtyAndPreventDefault env st k tn listenerFn pd e = Some (tr, r)"
  shows "suppressions tr =
           (if pd \<and> r = JBool False then [PreventDefault e, SetReturnValue e False] else [])"
proof -
  from wrapper_returns [OF assms] obtain fs where
    "chain (ngNextListenerFn st) (ngNextListenerFn st (WrapListenerIn k tn listenerFn pd)) fs" ..
  from wrapper_chain [OF this, of env e] assms
  show ?thesis by auto
qed

lemma last_result_final:
  "fs \<noteq> [] \<Longrightarrow> last_result env lv e fs r = final_result env e fs"
  by (simp add: last_result_last final_result_def executeListenerWithErrorHandling_def
        split: outcome.splits)

lemma wrapper_final:
  assumes "chain (ngNextListenerFn st)
             (ngNextListenerFn st (WrapListenerIn k tn listenerFn pd)) fs"
  shows "\<exists>tr. wrapListenerIn_markDirtyAndPreventDefault env st k tn listenerFn pd e
                = Some (tr, final_result env e (listenerFn # fs))
             \<and> suppressions tr =
                 (if pd \<and> final_result env e (listenerFn # fs) = JBool False
                  then [PreventDefault e, SetReturnValue e False] else [])"
proof -
  have lr: "last_result env (getLView st) e (listenerFn # fs) Undefined
              = final_result env e (listenerFn # fs)"
    by (rule last_result_final) simp
  from wrapper_chain [OF assms, of env e] obtain tr where
    run: "wrapListenerIn_markDirtyAndPreventDefault env st k tn listenerFn pd e
            = Some (tr, final_result env e (listenerFn # fs))"
    unfolding lr by blast
  from wrapper_suppressions [OF run] run show ?thesis by blast
qed

lemma wrapper_result:
  assumes "wrapListenerIn_markDirtyAndPreventDefault env st k tn listenerFn pd e = Some (tr, r)"
  shows "\<exists>fs. chain (ngNextListenerFn st)
                (ngNextListenerFn st (WrapListenerIn k tn listenerFn pd)) fs
              \<and> r = final_result env e (listenerFn # fs)"
proof -
  from wrapper_returns [OF assms] obtain fs where
    c: "chain (ngNextListenerFn st) (ngNextListenerFn st (WrapListenerIn k tn listenerFn pd)) fs" ..
  from wrapper_final [OF c, of env e] assms
  have "r = final_result env e (listenerFn # fs)" by auto
  with c show ?thesis by blast
qed

lemma result_state_simps [simp]:
  "result_state (Inl (err, st)) = st"
  "result_state (Inr st) = st"
  by (simp_all add: result_state_def)

lemma native_effects_subscribeOutputs:
  "native_effects (effects (result_state (subscribeOutputs env ev fn st))) = native_effects (effects st)"
proof -
  from subscribeOutputs_result [of env ev fn st] obtain ss where
    "result_state (subscribeOutputs env ev fn st) = subscribe_all ev fn ss (outputs_start env ev st)" ..
  then show ?thesis by simp
qed

lemma ngNext_subscribeOutputs:
  "ngNextListenerFn (result_state (subscribeOutputs env ev fn st)) = ngNextListenerFn st"
proof -
  from subscribeOutputs_result [of env ev fn st] obtain ss where
    "result_state (subscribeOutputs env ev fn st) = subscribe_all ev fn ss (outputs_start env ev st)" ..
  then show ?thesis by simp
qed

text \<open>The native calls one \<open>listenerInternal\<close> adds, by cases.\<close>

lemma listenerInternal_native:
  assumes "listenerInternal env ev h uc res ldr st = R"
  shows "(native_effects (effects (result_state R)) = native_effects (effects st)
            \<and> (type (getPreviousOrParentTNode st) = Element \<longrightarrow>
                 res = None \<and> isProceduralRenderer (effective_renderer ldr (init_tCleanup st))
                 \<and> findExistingListener (getLView (with_cleanup res (init_tCleanup st))) ev
                      (index (getPreviousOrParentTNode st)) \<noteq> Inr Null))
       \<or> (type (getPreviousOrParentTNode st) = Element
            \<and> isProceduralRenderer (effective_renderer ldr (init_tCleanup st))
            \<and> (res = None \<longrightarrow>
                 findExistingListener (getLView (with_cleanup res (init_tCleanup st))) ev
                      (index (getPreviousOrParentTNode st)) = Inr Null)
            \<and> native_effects (effects (result_state R)) = native_effects (effects st) @
                 [RendererListen (effective_renderer ldr (init_tCleanup st))
                    (listen_target_of res (index (getPreviousOrParentTNode st))) ev
                    (WrapListenerIn (allocated (with_cleanup res st)) (getPreviousOrParentTNode st)
                       h False)])
       \<or> (type (getPreviousOrParentTNode st) = Element
            \<and> \<not> isProceduralRenderer (effective_renderer ldr (init_tCleanup st))
            \<and> native_effects (effects (result_state R)) = native_effects (effects st) @
                 [AddEventListener (target_of res (index (getPreviousOrParentTNode st))) ev
                    (WrapListenerIn (allocated (with_cleanup res st)) (getPreviousOrParentTNode st)
                       h True) uc])"
proof (cases "type (getPreviousOrParentTNode st) = Element")
  case False
  then have "native_effects (effects (result_state R)) = native_effects (effects st)"
    using assms
    by (auto simp add: listenerInternal_unfold native_effects_subscribeOutputs split: if_splits)
  with False show ?thesis by simp
next
  case True
  let ?st1 = "init_tCleanup st"
  let ?N = "addNativeListener ev h uc res ldr ?st1"
  have R: "R = (case ?N of Inl failure \<Rightarrow> Inl failure
                | Inr (fn, st2) \<Rightarrow> subscribeOutputs env ev fn st2)"
    using assms True by (simp add: listenerInternal_unfold)
  have alloc: "allocated (with_cleanup res ?st1) = allocated (with_cleanup res st)"
    by (cases res) simp_all
  from addNativeListener_cases [OF refl, of ev h uc res ldr ?st1]
  consider
    (err) err where "?N = Inl (err, with_cleanup res ?st1)" "res = None"
      "isProceduralRenderer (effective_renderer ldr ?st1)"
      "findExistingListener (getLView (with_cleanup res ?st1)) ev
         (index (getPreviousOrParentTNode st)) = Inl err"
  | (coalesce) x where "x \<noteq> Null" "res = None"
      "isProceduralRenderer (effective_renderer ldr ?st1)"
      "findExistingListener (getLView (with_cleanup res ?st1)) ev
         (index (getPreviousOrParentTNode st)) = Inr x"
      "?N = attach_coalesced x h (with_cleanup res ?st1)"
  | (listen) "isProceduralRenderer (effective_renderer ldr ?st1)"
      "res = None \<longrightarrow> findExistingListener (getLView (with_cleanup res ?st1)) ev
         (index (getPreviousOrParentTNode st)) = Inr Null"
      "?N = Inr (listen_with_renderer (effective_renderer ldr ?st1)
                   (listen_target_of res (index (getPreviousOrParentTNode st))) ev h
                   (idxOrTargetGetter_of res ?st1)
                   (length (or_empty (CLEANUP (getLView ?st1)))) (with_cleanup res ?st1))"
  | (dom) "\<not> isProceduralRenderer (effective_renderer ldr ?st1)"
      "?N = Inr (addEventListener_to (target_of res (index (getPreviousOrParentTNode st)))
                   ev h uc (idxOrTargetGetter_of res ?st1)
                   (length (or_empty (CLEANUP (getLView ?st1)))) (with_cleanup res ?st1))"
    by auto
  then show ?thesis
  proof cases
    case err
    then have "native_effects (effects (result_state R)) = native_effects (effects st)"
      using R by simp
    with err True show ?thesis by simp
  next
    case coalesce
    have "native_effects (effects (result_state R)) = native_effects (effects st)"
    proof (cases "attach_coalesced x h (with_cleanup res ?st1)")
      case (Inl failure)
      then obtain e' st' where f: "failure = (e', st')" by (cases failure)
      from attach_coalesced_effects(1) [OF Inl [unfolded f]]
      show ?thesis using R coalesce(5) Inl f by simp
    next
      case (Inr ok)
      then obtain fn st' where f: "ok = (fn, st')" by (cases ok)
      from attach_coalesced_effects(2) [OF Inr [unfolded f]]
      show ?thesis using R coalesce(5) Inr f by (simp add: native_effects_subscribeOutputs)
    qed
    with coalesce True show ?thesis by simp
  next
    case listen
    let ?L = "listen_with_renderer (effective_renderer ldr ?st1)
                   (listen_target_of res (index (getPreviousOrParentTNode st))) ev h
                   (idxOrTargetGetter_of res ?st1)
                   (length (or_empty (CLEANUP (getLView ?st1)))) (with_cleanup res ?st1)"
    have "R = subscribeOutputs env ev (fst ?L) (snd ?L)"
      using R listen(3) by (simp add: case_prod_beta)
    then have "native_effects (effects (result_state R)) = native_effects (effects (snd ?L))"
      by (simp only: native_effects_subscribeOutputs)
    then have "native_effects (effects (result_state R)) = native_effects (effects st) @
                 [RendererListen (effective_renderer ldr ?st1)
                    (listen_target_of res (index (getPreviousOrParentTNode st))) ev
                    (WrapListenerIn (allocated (with_cleanup res st)) (getPreviousOrParentTNode st)
                       h False)]"
      by (simp add: alloc)
    with listen True show ?thesis by simp
  next
    case dom
    let ?D = "addEventListener_to (target_of res (index (getPreviousOrParentTNode st)))
                   ev h uc (idxOrTargetGetter_of res ?st1)
                   (length (or_empty (CLEANUP (getLView ?st1)))) (with_cleanup res ?st1)"
    have "R = subscribeOutputs env ev (fst ?D) (snd ?D)"
      using R dom(2) by (simp add: case_prod_beta)
    then have "native_effects (effects (result_state R)) = native_effects (effects (snd ?D))"
      by (simp only: native_effects_subscribeOutputs)
    then have "native_effects (effects (result_state R)) = native_effects (effects st) @
                 [AddEventListener (target_of res (index (getPreviousOrParentTNode st))) ev
                    (WrapListenerIn (allocated (with_cleanup res st)) (getPreviousOrParentTNode st)
                       h True) uc]"
      by (simp add: alloc)
    with dom True show ?thesis by simp
  qed
qed

text \<open>
  A call that returns on an element without a native registration has chained the
  handler right behind the listener the lookup found.
\<close>

lemma listenerInternal_coalesced:
  assumes run: "listenerInternal env ev h uc res ldr st = R"
    and el: "type (getPreviousOrParentTNode st) = Element"
    and ok: "failure_of R = None"
    and same: "native_effects (effects (result_state R)) = native_effects (effects st)"
  shows "\<exists>w. findExistingListener (getLView (with_cleanup res (init_tCleanup st))) ev
                (index (getPreviousOrParentTNode st)) = Inr (Ref w)
             \<and> ngNextListenerFn (result_state R) w = Some h"
proof -
  let ?st1 = "init_tCleanup st"
  let ?N = "addNativeListener ev h uc res ldr ?st1"
  from ok obtain st' where R: "R = Inr st'"
    by (cases R) (auto simp add: failure_of_def)
  have unf: "R = (case ?N of Inl failure \<Rightarrow> Inl failure
                  | Inr (fn, st2) \<Rightarrow> subscribeOutputs env ev fn st2)"
    using run el by (simp add: listenerInternal_unfold)
  with R obtain fn st2 where N: "?N = Inr (fn, st2)"
    and S: "R = subscribeOutputs env ev fn st2"
    by (cases ?N) auto
  have nat: "native_effects (effects st2) = native_effects (effects st)"
    using same unfolding S by (simp only: native_effects_subscribeOutputs)
  have nxt: "ngNextListenerFn (result_state R) = ngNextListenerFn st2"
    unfolding S by (rule ngNext_subscribeOutputs)
  from addNativeListener_cases [OF N]
  consider
    (coalesce) x where "x \<noteq> Null"
      "findExistingListener (getLView (with_cleanup res ?st1)) ev
         (index (getPreviousOrParentTNode ?st1)) = Inr x"
      "Inr (fn, st2) = attach_coalesced x h (with_cleanup res ?st1)"
  | (listen) "(fn, st2) = listen_with_renderer (effective_renderer ldr ?st1)
                   (listen_target_of res (index (getPreviousOrParentTNode ?st1))) ev h
                   (idxOrTargetGetter_of res ?st1)
                   (length (or_empty (CLEANUP (getLView ?st1)))) (with_cleanup res ?st1)"
  | (dom) "(fn, st2) = addEventListener_to (target_of res (index (getPreviousOrParentTNode ?st1)))
                   ev h uc (idxOrTargetGetter_of res ?st1)
                   (length (or_empty (CLEANUP (getLView ?st1)))) (with_cleanup res ?st1)"
    by auto
  then show ?thesis
  proof cases
    case coalesce
    from coalesce(3) obtain w where x: "x = Ref w"
      by (cases x) (simp_all add: attach_coalesced_def)
    from coalesce(3) have "ngNextListenerFn st2 w = Some h"
      unfolding x by (simp add: attach_coalesced_Ref)
    with coalesce(2) x nxt show ?thesis by simp
  next
    case listen
    then have "st2 = snd (listen_with_renderer (effective_renderer ldr ?st1)
                   (listen_target_of res (index (getPreviousOrParentTNode ?st1))) ev h
                   (idxOrTargetGetter_of res ?st1)
                   (length (or_empty (CLEANUP (getLView ?st1)))) (with_cleanup res ?st1))"
      by (metis snd_conv)
    with nat show ?thesis by simp
  next
    case dom
    then have "st2 = snd (addEventListener_to (target_of res (index (getPreviousOrParentTNode ?st1)))
                   ev h uc (idxOrTargetGetter_of res ?st1)
                   (length (or_empty (CLEANUP (getLView ?st1)))) (with_cleanup res ?st1))"
      by (metis snd_conv)
    with nat show ?thesis by simp
  qed
qed

text \<open>
  C5: a listener attached directly (renderer not procedural) is wrapped with
  \<open>wrapWithPreventDefault\<close> set, one registered through a procedural renderer with
  the flag clear, and a handler that is coalesced gets no wrapper of its own: it is chained
  behind the listener the lookup found. The dispatch of a wrapper returns on every
  finite chain, and its result is the final combined result: what the last handler
  called returns, \<open>false\<close> if it throws. With the flag set the dispatch calls
  \<open>preventDefault\<close> and sets \<open>returnValue\<close> to \<open>false\<close> exactly when that
  result is the boolean \<open>false\<close>, and for any other result (\<open>undefined\<close>, 0) it
  does neither; with the flag clear it never does either.
\<close>

theorem default_action_suppression:
  assumes "listenerInternal env ev h uc res ldr st = R"
  shows "(\<exists>new. native_effects (effects (result_state R)) = native_effects (effects st) @ new
          \<and> ((new = []
               \<and> (type (getPreviousOrParentTNode st) = Element \<and> failure_of R = None \<longrightarrow>
                    (\<exists>w. findExistingListener (getLView (with_cleanup res (init_tCleanup st))) ev
                            (index (getPreviousOrParentTNode st)) = Inr (Ref w)
                         \<and> ngNextListenerFn (result_state R) w = Some h)))
             \<or> (\<exists>rnd tgt a tn.
                   new = [RendererListen rnd tgt ev (WrapListenerIn a tn h False)]
                   \<and> isProceduralRenderer rnd)
             \<or> (\<exists>tgt a tn.
                   new = [AddEventListener tgt ev (WrapListenerIn a tn h True) uc]
                   \<and> \<not> isProceduralRenderer (effective_renderer ldr (init_tCleanup st)))))
       \<and> (\<forall>st2 k tn f pd e.
            (\<forall>fs. chain (ngNextListenerFn st2)
                    (ngNextListenerFn st2 (WrapListenerIn k tn f pd)) fs \<longrightarrow>
                 (\<exists>tr. wrapListenerIn_markDirtyAndPreventDefault env st2 k tn f pd e
                         = Some (tr, final_result env e (f # fs))
                       \<and> suppressions tr =
                           (if pd \<and> final_result env e (f # fs) = JBool False
                            then [PreventDefault e, SetReturnValue e False] else [])))
            \<and> (\<forall>tr r. wrapListenerIn_markDirtyAndPreventDefault env st2 k tn f pd e = Some (tr, r) \<longrightarrow>
                 (\<exists>fs. chain (ngNextListenerFn st2)
                         (ngNextListenerFn st2 (WrapListenerIn k tn f pd)) fs
                       \<and> r = final_result env e (f # fs))
                 \<and> suppressions tr =
                     (if pd \<and> r = JBool False
                      then [PreventDefault e, SetReturnValue e False] else [])))"
proof (rule conjI)
  from listenerInternal_native [OF assms]
  consider
    (none) "native_effects (effects (result_state R)) = native_effects (effects st)"
  | (listen) "isProceduralRenderer (effective_renderer ldr (init_tCleanup st))"
      "native_effects (effects (result_state R)) = native_effects (effects st) @
                 [RendererListen (effective_renderer ldr (init_tCleanup st))
                    (listen_target_of res (index (getPreviousOrParentTNode st))) ev
                    (WrapListenerIn (allocated (with_cleanup res st)) (getPreviousOrParentTNode st)
                       h False)]"
  | (dom) "\<not> isProceduralRenderer (effective_renderer ldr (init_tCleanup st))"
      "native_effects (effects (result_state R)) = native_effects (effects st) @
                 [AddEventListener (target_of res (index (getPreviousOrParentTNode st))) ev
                    (WrapListenerIn (allocated (with_cleanup res st)) (getPreviousOrParentTNode st)
                       h True) uc]"
    by blast
  then show "\<exists>new. native_effects (effects (result_state R)) = native_effects (effects st) @ new
          \<and> ((new = []
               \<and> (type (getPreviousOrParentTNode st) = Element \<and> failure_of R = None \<longrightarrow>
                    (\<exists>w. findExistingListener (getLView (with_cleanup res (init_tCleanup st))) ev
                            (index (getPreviousOrParentTNode st)) = Inr (Ref w)
                         \<and> ngNextListenerFn (result_state R) w = Some h)))
             \<or> (\<exists>rnd tgt a tn.
                   new = [RendererListen rnd tgt ev (WrapListenerIn a tn h False)]
                   \<and> isProceduralRenderer rnd)
             \<or> (\<exists>tgt a tn.
                   new = [AddEventListener tgt ev (WrapListenerIn a tn h True) uc]
                   \<and> \<not> isProceduralRenderer (effective_renderer ldr (init_tCleanup st))))"
  proof cases
    case none
    have "type (getPreviousOrParentTNode st) = Element \<and> failure_of R = None \<longrightarrow>
            (\<exists>w. findExistingListener (getLView (with_cleanup res (init_tCleanup st))) ev
                    (index (getPreviousOrParentTNode st)) = Inr (Ref w)
                 \<and> ngNextListenerFn (result_state R) w = Some h)"
      using listenerInternal_coalesced [OF assms _ _ none] by blast
    with none show ?thesis by simp
  next
    case listen
    show ?thesis
      by (rule exI [of _ "[RendererListen (effective_renderer ldr (init_tCleanup st))
                    (listen_target_of res (index (getPreviousOrParentTNode st))) ev
                    (WrapListenerIn (allocated (with_cleanup res st)) (getPreviousOrParentTNode st)
                       h False)]"])
         (use listen in blast)
  next
    case dom
    show ?thesis
      by (rule exI [of _ "[AddEventListener (target_of res (index (getPreviousOrParentTNode st))) ev
                    (WrapListenerIn (allocated (with_cleanup res st)) (getPreviousOrParentTNode st)
                       h True) uc]"])
         (use dom in blast)
  qed
next
  show "\<forall>st2 k tn f pd e.
            (\<forall>fs. chain (ngNextListenerFn st2)
                    (ngNextListenerFn st2 (WrapListenerIn k tn f pd)) fs \<longrightarrow>
                 (\<exists>tr. wrapListenerIn_markDirtyAndPreventDefault env st2 k tn f pd e
                         = Some (tr, final_result env e (f # fs))
                       \<and> suppressions tr =
                           (if pd \<and> final_result env e (f # fs) = JBool False
                            then [PreventDefault e, SetReturnValue e False] else [])))
            \<and> (\<forall>tr r. wrapListenerIn_markDirtyAndPreventDefault env st2 k tn f pd e = Some (tr, r) \<longrightarrow>
                 (\<exists>fs. chain (ngNextListenerFn st2)
                         (ngNextListenerFn st2 (WrapListenerIn k tn f pd)) fs
                       \<and> r = final_result env e (f # fs))
                 \<and> suppressions tr =
                     (if pd \<and> r = JBool False
                      then [PreventDefault e, SetReturnValue e False] else []))"
  proof (intro allI conjI impI)
    fix st2 :: state and k tn f pd e fs
    assume "chain (ngNextListenerFn st2) (ngNextListenerFn st2 (WrapListenerIn k tn f pd)) fs"
    then show "\<exists>tr. wrapListenerIn_markDirtyAndPreventDefault env st2 k tn f pd e
                         = Some (tr, final_result env e (f # fs))
                       \<and> suppressions tr =
                           (if pd \<and> final_result env e (f # fs) = JBool False
                            then [PreventDefault e, SetReturnValue e False] else [])"
      by (rule wrapper_final)
  next
    fix st2 :: state and k tn f pd e tr r
    assume "wrapListenerIn_markDirtyAndPreventDefault env st2 k tn f pd e = Some (tr, r)"
    then show "\<exists>fs. chain (ngNextListenerFn st2)
                         (ngNextListenerFn st2 (WrapListenerIn k tn f pd)) fs
                       \<and> r = final_result env e (f # fs)"
      by (rule wrapper_result)
  next
    fix st2 :: state and k tn f pd e tr r
    assume "wrapListenerIn_markDirtyAndPreventDefault env st2 k tn f pd e = Some (tr, r)"
    then show "suppressions tr =
                     (if pd \<and> r = JBool False
                      then [PreventDefault e, SetReturnValue e False] else [])"
      by (rule wrapper_suppressions)
  qed
qed

lemma dom_install_native:
  "native_effects (effects (result_state dom_install))
     = [AddEventListener (RElement 1) ''click''
          (WrapListenerIn 0 element_tNode (ListenerFn 4) True) True]"
  unfolding dom_install_def by code_simp

lemma procedural_install_native:
  "native_effects (effects (result_state procedural_install))
     = [RendererListen (ProceduralRenderer3 0) (TargetRef (RElement 1)) ''click''
          (WrapListenerIn 0 element_tNode (ListenerFn 4) False)]"
  unfolding procedural_install_def by code_simp

lemma coalesced_install_native:
  "native_effects (effects (result_state coalesced_install))
     = native_effects (effects (result_state procedural_install))"
  unfolding coalesced_install_def procedural_install_def by code_simp

lemma coalesced_install_ok:
  "failure_of coalesced_install = None"
  "type (getPreviousOrParentTNode (result_state procedural_install)) = Element"
  "findExistingListener
     (getLView (with_cleanup None (init_tCleanup (result_state procedural_install)))) ''click''
     (index (getPreviousOrParentTNode (result_state procedural_install)))
   = Inr (Ref (WrapListenerIn 0 element_tNode (ListenerFn 4) False))"
  unfolding coalesced_install_def procedural_install_def by code_simp+

lemma no_chain_after_install:
  "ngNextListenerFn (result_state dom_install)
     (WrapListenerIn 0 element_tNode (ListenerFn 4) True) = None"
  "ngNextListenerFn (result_state procedural_install)
     (WrapListenerIn 0 element_tNode (ListenerFn 4) False) = None"
  unfolding dom_install_def procedural_install_def by code_simp+

theorem default_action_suppression_witness:
  "native_effects (effects (result_state dom_install))
     = [AddEventListener (RElement 1) ''click''
          (WrapListenerIn 0 element_tNode (ListenerFn 4) True) True]
   \<and> (\<exists>tr. wrapListenerIn_markDirtyAndPreventDefault example_env (result_state dom_install) 0
               element_tNode (ListenerFn 4) True 7 = Some (tr, JBool False)
           \<and> suppressions tr = [PreventDefault 7, SetReturnValue 7 False])
   \<and> (\<exists>tr. wrapListenerIn_markDirtyAndPreventDefault example_env dom_state 0
               element_tNode (ListenerFn 5) True 7 = Some (tr, JNum 0)
           \<and> suppressions tr = [])
   \<and> (\<exists>tr. wrapListenerIn_markDirtyAndPreventDefault example_env dom_state 0
               element_tNode (ListenerFn 2) True 7 = Some (tr, Undefined)
           \<and> suppressions tr = [])
   \<and> (\<exists>tr. wrapListenerIn_markDirtyAndPreventDefault example_env dom_state 0
               element_tNode (ListenerFn 3) True 7 = Some (tr, JBool False)
           \<and> suppressions tr = [PreventDefault 7, SetReturnValue 7 False])
   \<and> (\<exists>tr. wrapListenerIn_markDirtyAndPreventDefault example_env (direct_chain 4 5) 0
               element_tNode (ListenerFn 4) True 7 = Some (tr, JNum 0)
           \<and> suppressions tr = [])
   \<and> (\<exists>tr. wrapListenerIn_markDirtyAndPreventDefault example_env (direct_chain 5 4) 0
               element_tNode (ListenerFn 5) True 7 = Some (tr, JBool False)
           \<and> suppressions tr = [PreventDefault 7, SetReturnValue 7 False])
   \<and> native_effects (effects (result_state procedural_install))
       = [RendererListen (ProceduralRenderer3 0) (TargetRef (RElement 1)) ''click''
            (WrapListenerIn 0 element_tNode (ListenerFn 4) False)]
   \<and> (\<exists>tr. wrapListenerIn_markDirtyAndPreventDefault example_env
               (result_state procedural_install) 0
               element_tNode (ListenerFn 4) False 7 = Some (tr, JBool False)
           \<and> suppressions tr = [])
   \<and> native_effects (effects (result_state coalesced_install))
       = native_effects (effects (result_state procedural_install))
   \<and> ngNextListenerFn (result_state coalesced_install)
        (WrapListenerIn 0 element_tNode (ListenerFn 4) False) = Some (ListenerFn 2)"
proof -
  note dispatch =
    default_action_suppression [OF dom_install_def [symmetric], THEN conjunct2,
      THEN spec, THEN spec, THEN spec, THEN spec, THEN spec, THEN spec,
      THEN conjunct1, rule_format]
  have fin:
    "final_result example_env 7 [ListenerFn 4] = JBool False"
    "final_result example_env 7 [ListenerFn 5] = JNum 0"
    "final_result example_env 7 [ListenerFn 2] = Undefined"
    "final_result example_env 7 [ListenerFn 3] = JBool False"
    "final_result example_env 7 [ListenerFn 4, ListenerFn 5] = JNum 0"
    "final_result example_env 7 [ListenerFn 5, ListenerFn 4] = JBool False"
    by (simp_all add: final_result_def example_env_def)
  have c1: "chain (ngNextListenerFn (result_state dom_install))
              (ngNextListenerFn (result_state dom_install)
                 (WrapListenerIn 0 element_tNode (ListenerFn 4) True)) []"
    by (simp add: no_chain_after_install)
  have c2: "chain (ngNextListenerFn dom_state)
              (ngNextListenerFn dom_state (WrapListenerIn 0 element_tNode (ListenerFn n) True)) []"
    for n
    by (simp add: dom_state_def fresh_state_def)
  have c3: "chain (ngNextListenerFn (direct_chain n m))
              (ngNextListenerFn (direct_chain n m)
                 (WrapListenerIn 0 element_tNode (ListenerFn n) True)) [ListenerFn m]"
    for n m
    by (simp add: direct_chain_def dom_state_def fresh_state_def)
  have c4: "chain (ngNextListenerFn (result_state procedural_install))
              (ngNextListenerFn (result_state procedural_install)
                 (WrapListenerIn 0 element_tNode (ListenerFn 4) False)) []"
    by (simp add: no_chain_after_install)
  have d1: "\<exists>tr. wrapListenerIn_markDirtyAndPreventDefault example_env (result_state dom_install) 0
               element_tNode (ListenerFn 4) True 7 = Some (tr, JBool False)
           \<and> suppressions tr = [PreventDefault 7, SetReturnValue 7 False]"
    using dispatch [OF c1, of 7] by (simp add: fin)
  have d2: "\<exists>tr. wrapListenerIn_markDirtyAndPreventDefault example_env dom_state 0
               element_tNode (ListenerFn 5) True 7 = Some (tr, JNum 0)
           \<and> suppressions tr = []"
    using dispatch [OF c2, of 5 7] by (simp add: fin)
  have d3: "\<exists>tr. wrapListenerIn_markDirtyAndPreventDefault example_env dom_state 0
               element_tNode (ListenerFn 2) True 7 = Some (tr, Undefined)
           \<and> suppressions tr = []"
    using dispatch [OF c2, of 2 7] by (simp add: fin)
  have d4: "\<exists>tr. wrapListenerIn_markDirtyAndPreventDefault example_env dom_state 0
               element_tNode (ListenerFn 3) True 7 = Some (tr, JBool False)
           \<and> suppressions tr = [PreventDefault 7, SetReturnValue 7 False]"
    using dispatch [OF c2, of 3 7] by (simp add: fin)
  have d5: "\<exists>tr. wrapListenerIn_markDirtyAndPreventDefault example_env (direct_chain 4 5) 0
               element_tNode (ListenerFn 4) True 7 = Some (tr, JNum 0)
           \<and> suppressions tr = []"
    using dispatch [OF c3, of 4 5 7] by (simp add: fin)
  have d6: "\<exists>tr. wrapListenerIn_markDirtyAndPreventDefault example_env (direct_chain 5 4) 0
               element_tNode (ListenerFn 5) True 7 = Some (tr, JBool False)
           \<and> suppressions tr = [PreventDefault 7, SetReturnValue 7 False]"
    using dispatch [OF c3, of 5 4 7] by (simp add: fin)
  have d7: "\<exists>tr. wrapListenerIn_markDirtyAndPreventDefault example_env
               (result_state procedural_install) 0
               element_tNode (ListenerFn 4) False 7 = Some (tr, JBool False)
           \<and> suppressions tr = []"
    using dispatch [OF c4, of 7] by (simp add: fin)
  from default_action_suppression [OF coalesced_install_def [symmetric], THEN conjunct1]
  obtain new where
    n: "native_effects (effects (result_state coalesced_install))
          = native_effects (effects (result_state procedural_install)) @ new"
    and c: "(new = []
             \<and> (type (getPreviousOrParentTNode (result_state procedural_install)) = Element
                  \<and> failure_of coalesced_install = None \<longrightarrow>
                  (\<exists>w. findExistingListener
                          (getLView (with_cleanup None
                             (init_tCleanup (result_state procedural_install)))) ''click''
                          (index (getPreviousOrParentTNode (result_state procedural_install)))
                        = Inr (Ref w)
                       \<and> ngNextListenerFn (result_state coalesced_install) w
                           = Some (ListenerFn 2))))
            \<or> (\<exists>rnd tgt a tn.
                  new = [RendererListen rnd tgt ''click'' (WrapListenerIn a tn (ListenerFn 2) False)]
                  \<and> isProceduralRenderer rnd)
            \<or> (\<exists>tgt a tn.
                  new = [AddEventListener tgt ''click'' (WrapListenerIn a tn (ListenerFn 2) True) False]
                  \<and> \<not> isProceduralRenderer
                         (effective_renderer None (init_tCleanup (result_state procedural_install))))"
    by blast
  from n have "new = []" by (simp add: coalesced_install_native)
  with c coalesced_install_ok
  have d8: "ngNextListenerFn (result_state coalesced_install)
              (WrapListenerIn 0 element_tNode (ListenerFn 4) False) = Some (ListenerFn 2)"
    by auto
  show ?thesis
    by (intro conjI)
       (rule dom_install_native procedural_install_native coalesced_install_native
          d1 d2 d3 d4 d5 d6 d7 d8)+
qed

text \<open>
  C9, as stated, fails: on a container node \<open>listenerInternal\<close> returns normally and
  makes no call to the renderer or to the DOM.
\<close>

theorem container_gets_no_native_listener:
  "type (getPreviousOrParentTNode container_state) = Container
   \<and> RENDERER (getLView container_state) = ProceduralRenderer3 0
   \<and> \<not> isl container_install
   \<and> native_effects (effects (result_state container_install)) = []"
  unfolding container_install_def by code_simp

text \<open>
  C9, amended: the native target is resolved and a native listener attached for a node of
  type \<open>Element\<close> only. For an element the call registers one listener, through
  \<open>listen\<close> of a procedural renderer or \<open>addEventListener\<close> of the target, unless the
  lookup found a listener to coalesce with (or failed); for a container, an element
  container or any other node it makes no native call, and in dev mode a node of another
  type is rejected by the assertion.
\<close>

theorem native_listener_only_for_elements:
  assumes "listenerInternal env ev h uc res ldr st = R"
  shows "(type (getPreviousOrParentTNode st) \<noteq> Element \<longrightarrow>
            native_effects (effects (result_state R)) = native_effects (effects st))
       \<and> (type (getPreviousOrParentTNode st) = OtherNodeType \<and> ngDevMode st \<noteq> None \<longrightarrow>
            R = Inl (AssertionError, init_tCleanup st))
       \<and> (type (getPreviousOrParentTNode st) = Element \<longrightarrow>
            (isProceduralRenderer (effective_renderer ldr (init_tCleanup st))
               \<and> (res = None \<longrightarrow>
                    findExistingListener (getLView (with_cleanup res (init_tCleanup st))) ev
                      (index (getPreviousOrParentTNode st)) = Inr Null)
               \<and> native_effects (effects (result_state R)) = native_effects (effects st) @
                    [RendererListen (effective_renderer ldr (init_tCleanup st))
                       (listen_target_of res (index (getPreviousOrParentTNode st))) ev
                       (WrapListenerIn (allocated (with_cleanup res st))
                          (getPreviousOrParentTNode st) h False)])
          \<or> (\<not> isProceduralRenderer (effective_renderer ldr (init_tCleanup st))
               \<and> native_effects (effects (result_state R)) = native_effects (effects st) @
                    [AddEventListener (target_of res (index (getPreviousOrParentTNode st))) ev
                       (WrapListenerIn (allocated (with_cleanup res st))
                          (getPreviousOrParentTNode st) h True) uc])
          \<or> (res = None \<and> isProceduralRenderer (effective_renderer ldr (init_tCleanup st))
               \<and> findExistingListener (getLView (with_cleanup res (init_tCleanup st))) ev
                    (index (getPreviousOrParentTNode st)) \<noteq> Inr Null
               \<and> native_effects (effects (result_state R)) = native_effects (effects st)))"
proof (intro conjI impI)
  assume "type (getPreviousOrParentTNode st) \<noteq> Element"
  with listenerInternal_native [OF assms]
  show "native_effects (effects (result_state R)) = native_effects (effects st)" by blast
next
  assume "type (getPreviousOrParentTNode st) = OtherNodeType \<and> ngDevMode st \<noteq> None"
  with assms show "R = Inl (AssertionError, init_tCleanup st)"
    by (auto simp add: listenerInternal_unfold)
next
  assume "type (getPreviousOrParentTNode st) = Element"
  with listenerInternal_native [OF assms]
  show "(isProceduralRenderer (effective_renderer ldr (init_tCleanup st))
               \<and> (res = None \<longrightarrow>
                    findExistingListener (getLView (with_cleanup res (init_tCleanup st))) ev
                      (index (getPreviousOrParentTNode st)) = Inr Null)
               \<and> native_effects (effects (result_state R)) = native_effects (effects st) @
                    [RendererListen (effective_renderer ldr (init_tCleanup st))
                       (listen_target_of res (index (getPreviousOrParentTNode st))) ev
                       (WrapListenerIn (allocated (with_cleanup res st))
                          (getPreviousOrParentTNode st) h False)])
          \<or> (\<not> isProceduralRenderer (effective_renderer ldr (init_tCleanup st))
               \<and> native_effects (effects (result_state R)) = native_effects (effects st) @
                    [AddEventListener (target_of res (index (getPreviousOrParentTNode st))) ev
                       (WrapListenerIn (allocated (with_cleanup res st))
                          (getPreviousOrParentTNode st) h True) uc])
          \<or> (res = None \<and> isProceduralRenderer (effective_renderer ldr (init_tCleanup st))
               \<and> findExistingListener (getLView (with_cleanup res (init_tCleanup st))) ev
                    (index (getPreviousOrParentTNode st)) \<noteq> Inr Null
               \<and> native_effects (effects (result_state R)) = native_effects (effects st))"
    by blast
qed

theorem native_listener_only_for_elements_witness:
  "type (getPreviousOrParentTNode container_state) \<noteq> Element
   \<and> native_effects (effects (result_state container_install))
       = native_effects (effects container_state)
   \<and> type (getPreviousOrParentTNode fresh_state) = Element
   \<and> native_effects (effects (result_state element_install))
       = [RendererListen (ProceduralRenderer3 0) (TargetRef (RElement 1)) ''click''
            (WrapListenerIn 0 element_tNode (ListenerFn 1) False)]"
proof -
  have c: "type (getPreviousOrParentTNode container_state) \<noteq> Element"
    by (simp add: container_state_def fresh_state_def element_tNode_def)
  have e: "type (getPreviousOrParentTNode fresh_state) = Element"
    by (simp add: fresh_state_def element_tNode_def)
  have l: "findExistingListener (getLView (with_cleanup None (init_tCleanup fresh_state)))
             ''click'' (index (getPreviousOrParentTNode fresh_state)) = Inr Null"
    by code_simp
  have p: "isProceduralRenderer (effective_renderer None (init_tCleanup fresh_state))"
    by code_simp
  have v: "native_effects (effects fresh_state) @
             [RendererListen (effective_renderer None (init_tCleanup fresh_state))
                (listen_target_of None (index (getPreviousOrParentTNode fresh_state))) ''click''
                (WrapListenerIn (allocated (with_cleanup None fresh_state))
                   (getPreviousOrParentTNode fresh_state) (ListenerFn 1) False)]
           = [RendererListen (ProceduralRenderer3 0) (TargetRef (RElement 1)) ''click''
                (WrapListenerIn 0 element_tNode (ListenerFn 1) False)]"
    by code_simp
  from native_listener_only_for_elements [OF container_install_def [symmetric]] c
  have 1: "native_effects (effects (result_state container_install))
             = native_effects (effects container_state)" by blast
  from native_listener_only_for_elements [OF element_install_def [symmetric]] e l p
  have "native_effects (effects (result_state element_install)) = native_effects (effects fresh_state) @
             [RendererListen (effective_renderer None (init_tCleanup fresh_state))
                (listen_target_of None (index (getPreviousOrParentTNode fresh_state))) ''click''
                (WrapListenerIn (allocated (with_cleanup None fresh_state))
                   (getPreviousOrParentTNode fresh_state) (ListenerFn 1) False)]"
    by blast
  then have 2: "native_effects (effects (result_state element_install))
       = [RendererListen (ProceduralRenderer3 0) (TargetRef (RElement 1)) ''click''
            (WrapListenerIn 0 element_tNode (ListenerFn 1) False)]" by (simp only: v)
  from c 1 e 2 show ?thesis by blast
qed

lemma listenerInternal_parts:
  "listenerInternal env ev h uc res ldr st =
     (case native_part ev h uc res ldr st of
        Inl failure \<Rightarrow> Inl failure
      | Inr (fn, st1) \<Rightarrow> subscribeOutputs env ev fn st1)"
  by (simp add: listenerInternal_unfold native_part_def)

lemma with_cleanup_view [simp]:
  "slots (getLView (with_cleanup res st)) = slots (getLView st)"
  "lview_id (getLView (with_cleanup res st)) = lview_id (getLView st)"
  "FLAGS (getLView (with_cleanup res st)) = FLAGS (getLView st)"
  "RENDERER (getLView (with_cleanup res st)) = RENDERER (getLView st)"
  "TVIEW (getLView (with_cleanup res st)) = TVIEW (getLView st)"
  by simp_all

lemma attach_coalesced_frame:
  assumes "attach_coalesced x h st = Inr (fn, st')"
  shows "fn = h \<and> effects st' = effects st
         \<and> getPreviousOrParentTNode st' = getPreviousOrParentTNode st
         \<and> getLView st' = getLView st \<and> ngDevMode st' = ngDevMode st
         \<and> allocated st' = allocated st"
  using assms by (auto simp add: attach_coalesced_def split: jsval.splits)

lemma native_part_cases:
  assumes "native_part ev h uc res ldr st = Inr (fn, st1)"
  shows "getPreviousOrParentTNode st1 = getPreviousOrParentTNode st
       \<and> slots (getLView st1) = slots (getLView st)
       \<and> (ngDevMode st1 = None \<longleftrightarrow> ngDevMode st = None)
       \<and> subscriptions (effects st1) = subscriptions (effects st)
       \<and> ((fn = h \<and> native_effects (effects st1) = native_effects (effects st))
          \<or> (\<exists>k pd x. type (getPreviousOrParentTNode st) = Element
                \<and> fn = WrapListenerIn k (getPreviousOrParentTNode st) h pd
                \<and> native_effects (effects st1) = native_effects (effects st) @ [x]))"
proof (cases "type (getPreviousOrParentTNode st) = Element")
  case False
  with assms have "fn = h" "st1 = init_tCleanup st"
    by (auto simp add: native_part_def split: if_splits)
  then show ?thesis by simp
next
  case True
  let ?st0 = "init_tCleanup st"
  from assms True have N: "addNativeListener ev h uc res ldr ?st0 = Inr (fn, st1)"
    by (simp add: native_part_def)
  from addNativeListener_cases [OF N]
  consider
    (coalesce) x where "Inr (fn, st1) = attach_coalesced x h (with_cleanup res ?st0)"
  | (listen) rnd tgt g L where
      "(fn, st1) = listen_with_renderer rnd tgt ev h g L (with_cleanup res ?st0)"
  | (dom) tgt g L where
      "(fn, st1) = addEventListener_to tgt ev h uc g L (with_cleanup res ?st0)"
    by auto
  then show ?thesis
  proof cases
    case coalesce
    from attach_coalesced_frame [OF coalesce [symmetric]]
    show ?thesis by simp
  next
    case listen
    then have fn: "fn = fst (listen_with_renderer rnd tgt ev h g L (with_cleanup res ?st0))"
      and st1: "st1 = snd (listen_with_renderer rnd tgt ev h g L (with_cleanup res ?st0))"
      by (metis fst_conv, metis snd_conv)
    have "fn = WrapListenerIn (allocated (with_cleanup res ?st0)) (getPreviousOrParentTNode st) h False
          \<and> native_effects (effects st1) = native_effects (effects st) @
               [RendererListen rnd tgt ev fn]"
      unfolding fn st1 by simp
    moreover have "getPreviousOrParentTNode st1 = getPreviousOrParentTNode st
       \<and> slots (getLView st1) = slots (getLView st)
       \<and> (ngDevMode st1 = None \<longleftrightarrow> ngDevMode st = None)
       \<and> subscriptions (effects st1) = subscriptions (effects st)"
      unfolding st1 by simp
    ultimately show ?thesis using True by blast
  next
    case dom
    then have fn: "fn = fst (addEventListener_to tgt ev h uc g L (with_cleanup res ?st0))"
      and st1: "st1 = snd (addEventListener_to tgt ev h uc g L (with_cleanup res ?st0))"
      by (metis fst_conv, metis snd_conv)
    have "fn = WrapListenerIn (allocated (with_cleanup res ?st0)) (getPreviousOrParentTNode st) h True
          \<and> native_effects (effects st1) = native_effects (effects st) @
               [AddEventListener tgt ev fn uc]"
      unfolding fn st1 by simp
    moreover have "getPreviousOrParentTNode st1 = getPreviousOrParentTNode st
       \<and> slots (getLView st1) = slots (getLView st)
       \<and> (ngDevMode st1 = None \<longleftrightarrow> ngDevMode st = None)
       \<and> subscriptions (effects st1) = subscriptions (effects st)"
      unfolding st1 by simp
    ultimately show ?thesis using True by blast
  qed
qed

lemma native_part_frame:
  assumes "native_part ev h uc res ldr st = Inr (fn, st1)"
  shows "getPreviousOrParentTNode st1 = getPreviousOrParentTNode st"
    and "slots (getLView st1) = slots (getLView st)"
    and "ngDevMode st1 = None \<longleftrightarrow> ngDevMode st = None"
    and "subscriptions (effects st1) = subscriptions (effects st)"
  using native_part_cases [OF assms] by simp_all

lemma native_part_listenerFn:
  assumes "native_part ev h uc res ldr st = Inr (fn, st1)"
  shows "(fn = h \<and> native_effects (effects st1) = native_effects (effects st))
          \<or> (\<exists>k pd x. type (getPreviousOrParentTNode st) = Element
                \<and> fn = WrapListenerIn k (getPreviousOrParentTNode st) h pd
                \<and> native_effects (effects st1) = native_effects (effects st) @ [x])"
  using native_part_cases [OF assms] by simp

lemma output_stream_slots:
  "slots lv = slots lv' \<Longrightarrow> output_stream lv = output_stream lv'"
  by (rule ext) (simp add: output_stream_def split: prod.splits)

lemma subscribe_all_or_empty_CLEANUP:
  "or_empty (CLEANUP (getLView (subscribe_all ev fn ss st))) =
     or_empty (CLEANUP (getLView st)) @ subscription_records fn (allocated st) (length ss)"
proof (induction ss arbitrary: st)
  case Nil
  then show ?case by simp
next
  case (Cons s ss)
  show ?case
    by (simp add: Cons.IH subscribe_output_CLEANUP subscription_records_Suc)
qed

text \<open>
  C8, as stated, fails: in production (\<open>ngDevMode\<close> off) the check is skipped and the
  call of \<open>subscribe\<close> on the value that is no stream throws a type error, which names
  neither the property nor the type.
\<close>

theorem misconfigured_output_in_production:
  "ngDevMode (broken_output_state None) = None
   \<and> failure_of (broken_install None) = Some TypeError
   \<and> TypeError \<noteq> Error (not_initialized ''change'' ''MyDir'')"
  unfolding broken_install_def by code_simp

text \<open>
  C8, amended: when the native part has returned and an output that matches the event
  name is no subscribable stream (the outputs before it being streams), \<open>listenerInternal\<close>
  fails at that output: in dev mode with the error that names the property and the
  constructor of the directive, in production with a type error. The outputs before it
  have been subscribed; that output and the ones after it have not.
\<close>

theorem misconfigured_output_aborts:
  assumes np: "native_part ev h uc res ldr st = Inr (fn, st1)"
    and props: "output_props env ev (getPreviousOrParentTNode st)
                  = pre @ (i, publicName, minifiedName) # post"
    and pre: "map (output_stream (getLView st)) pre = map Some ss"
    and slot: "i < length (slots (getLView st))" "slots (getLView st) ! i = Some d"
    and bad: "\<not> isObservable (members d minifiedName)"
  shows "\<exists>st'. listenerInternal env ev h uc res ldr st
                 = Inl (if ngDevMode st = None then TypeError
                        else Error (not_initialized minifiedName (constructor_name d)), st')
              \<and> subscriptions (effects st') = subscriptions (effects st) @ map (\<lambda>s. (s, fn)) ss"
proof -
  note tn = native_part_frame(1) [OF np]
    and sl = native_part_frame(2) [OF np]
    and dm = native_part_frame(3) [OF np]
    and su = native_part_frame(4) [OF np]
  let ?S = "outputs_start env ev st1"
  let ?T = "subscribe_all ev fn ss ?S"
  have os: "output_stream (getLView st1) = output_stream (getLView st)"
    by (rule output_stream_slots) (rule sl)
  have ne: "output_props env ev (getPreviousOrParentTNode st1) \<noteq> []"
    using props tn by simp
  have "listenerInternal env ev h uc res ldr st
          = subscribe_loop ev fn (pre @ (i, publicName, minifiedName) # post) ?S"
    using np ne props tn by (simp add: listenerInternal_parts subscribeOutputs_start)
  also have "\<dots> = subscribe_loop ev fn ((i, publicName, minifiedName) # post) ?T"
    by (rule subscribe_loop_prefix) (simp add: os pre)
  also have "\<dots> = Inl (if ngDevMode ?T = None then TypeError
                        else Error (not_initialized minifiedName (constructor_name d)), ?T)"
    by (rule subscribe_loop_not_observable) (simp_all add: sl slot bad)
  finally have "listenerInternal env ev h uc res ldr st
                 = Inl (if ngDevMode st = None then TypeError
                        else Error (not_initialized minifiedName (constructor_name d)), ?T)"
    using dm by simp
  moreover have "subscriptions (effects ?T) = subscriptions (effects st) @ map (\<lambda>s. (s, fn)) ss"
    using su by simp
  ultimately show ?thesis by blast
qed

theorem misconfigured_output_aborts_witness:
  "failure_of (broken_install (Some 0)) = Some (Error (not_initialized ''change'' ''MyDir''))
   \<and> subscriptions (effects (result_state (broken_install (Some 0)))) = [(5, ListenerFn 1)]
   \<and> failure_of (broken_install None) = Some TypeError
   \<and> subscriptions (effects (result_state (broken_install None))) = [(5, ListenerFn 1)]"
proof -
  have w: "failure_of (broken_install dev)
             = Some (if dev = None then TypeError else Error (not_initialized ''change'' ''MyDir''))
           \<and> subscriptions (effects (result_state (broken_install dev))) = [(5, ListenerFn 1)]"
    for dev
  proof -
  let ?st = "broken_output_state dev"
  have np: "native_part ''change'' (ListenerFn 1) False None None ?st
              = Inr (ListenerFn 1, init_tCleanup ?st)"
    by (simp add: native_part_def broken_output_state_def change_tNode_def)
  have props: "output_props example_env ''change'' (getPreviousOrParentTNode ?st)
                = [(0, ''change'', ''change'')] @ (1, ''change'', ''change'') # []"
    by (simp add: output_props_def broken_output_state_def change_tNode_def)
  have pre: "map (output_stream (getLView ?st)) [(0, ''change'', ''change'')] = map Some [5]"
    by (simp add: output_stream_def broken_output_state_def emitter_def)
  have slot: "1 < length (slots (getLView ?st))"
    "slots (getLView ?st) ! 1 = Some broken_directive"
    by (simp_all add: broken_output_state_def)
  have bad: "\<not> isObservable (members broken_directive ''change'')"
    by (simp add: broken_directive_def)
  from misconfigured_output_aborts [OF np props pre slot bad]
  obtain st' where
    "listenerInternal example_env ''change'' (ListenerFn 1) False None None ?st
               = Inl (if ngDevMode ?st = None then TypeError
                      else Error (not_initialized ''change'' (constructor_name broken_directive)), st')"
    "subscriptions (effects st') = subscriptions (effects ?st) @ map (\<lambda>s. (s, ListenerFn 1)) [5]"
    by blast
  then show ?thesis
    by (simp add: broken_install_def failure_of_def broken_output_state_def fresh_state_def
          broken_directive_def)
  qed
  from w [of "Some 0"] w [of None] show ?thesis by simp
qed

text \<open>
  C6, as stated, fails: on an element the handler is wrapped for the native listener
  first, and the two outputs are subscribed with the wrapper, not with the handler.
\<close>

theorem outputs_get_the_wrapper_on_elements:
  "\<not> isl (outputs_install Element)
   \<and> subscriptions (effects (result_state (outputs_install Element)))
       = [(5, WrapListenerIn 0 (change_tNode Element) (ListenerFn 1) False),
          (6, WrapListenerIn 0 (change_tNode Element) (ListenerFn 1) False)]"
  unfolding outputs_install_def by code_simp

text \<open>
  C6, amended: when \<open>listenerInternal\<close> returns, every output that matches the event
  name has been subscribed once, in order, with the value of \<open>listenerFn\<close> at that
  point: the handler itself when this call attached no native listener (the node is not
  an element, or the handler was coalesced), the wrapper this call registered natively
  otherwise. Outputs are not coalesced: each one has its own subscription, and the
  function and the subscription handle of each are appended to the view's cleanup list.
\<close>

theorem outputs_subscribe_listenerFn:
  assumes "listenerInternal env ev h uc res ldr st = Inr st'"
  shows "\<exists>fn ss lc a.
           map (output_stream (getLView st)) (output_props env ev (getPreviousOrParentTNode st))
             = map Some ss
         \<and> subscriptions (effects st') = subscriptions (effects st) @ map (\<lambda>s. (s, fn)) ss
         \<and> or_empty (CLEANUP (getLView st')) = lc @ subscription_records fn a (length ss)
         \<and> ((fn = h \<and> native_effects (effects st') = native_effects (effects st))
            \<or> (\<exists>k pd x. type (getPreviousOrParentTNode st) = Element
                  \<and> fn = WrapListenerIn k (getPreviousOrParentTNode st) h pd
                  \<and> native_effects (effects st') = native_effects (effects st) @ [x]))"
proof -
  from assms obtain fn st1 where
    np: "native_part ev h uc res ldr st = Inr (fn, st1)"
    and so: "subscribeOutputs env ev fn st1 = Inr st'"
    by (auto simp add: listenerInternal_parts split: sum.splits)
  note tn = native_part_frame(1) [OF np]
    and sl = native_part_frame(2) [OF np]
    and su = native_part_frame(4) [OF np]
  have os: "output_stream (getLView st1) = output_stream (getLView st)"
    by (rule output_stream_slots) (rule sl)
  from subscribeOutputs_success [OF so] obtain ss where
    m: "map (output_stream (getLView st1)) (output_props env ev (getPreviousOrParentTNode st1))
          = map Some ss"
    and st': "st' = subscribe_all ev fn ss (outputs_start env ev st1)"
    by blast
  have 1: "map (output_stream (getLView st)) (output_props env ev (getPreviousOrParentTNode st))
             = map Some ss"
    using m by (simp only: os tn)
  have 2: "subscriptions (effects st') = subscriptions (effects st) @ map (\<lambda>s. (s, fn)) ss"
    by (simp add: st' su)
  have 3: "or_empty (CLEANUP (getLView st'))
             = or_empty (CLEANUP (getLView st1)) @ subscription_records fn (allocated st1) (length ss)"
    by (simp add: st' subscribe_all_or_empty_CLEANUP)
  have ne: "native_effects (effects st') = native_effects (effects st1)"
    by (simp add: st')
  from native_part_listenerFn [OF np]
  have 4: "(fn = h \<and> native_effects (effects st') = native_effects (effects st))
            \<or> (\<exists>k pd x. type (getPreviousOrParentTNode st) = Element
                  \<and> fn = WrapListenerIn k (getPreviousOrParentTNode st) h pd
                  \<and> native_effects (effects st') = native_effects (effects st) @ [x])"
    by (simp only: ne)
  from 1 2 3 4 show ?thesis by blast
qed

theorem outputs_subscribe_listenerFn_witness:
  "\<not> isl (outputs_install Container)
   \<and> subscriptions (effects (result_state (outputs_install Container)))
       = [(5, ListenerFn 1), (6, ListenerFn 1)]
   \<and> or_empty (CLEANUP (getLView (result_state (outputs_install Container))))
       = [Ref (ListenerFn 1), Ref (Subscription 0), Ref (ListenerFn 1), Ref (Subscription 1)]"
proof -
  have ok: "\<not> isl (outputs_install Container)"
    unfolding outputs_install_def by code_simp
  then obtain st' where r: "outputs_install Container = Inr st'"
    by (cases "outputs_install Container") simp_all
  have p: "map (output_stream (getLView (two_outputs_state Container)))
             (output_props example_env ''change'' (getPreviousOrParentTNode (two_outputs_state Container)))
           = map Some [5, 6]"
    by code_simp
  have ty: "type (getPreviousOrParentTNode (two_outputs_state Container)) \<noteq> Element"
    by code_simp
  have e0: "subscriptions (effects (two_outputs_state Container)) = []"
    by code_simp
  from outputs_subscribe_listenerFn [OF r [unfolded outputs_install_def]]
  obtain fn ss where
    m: "map (output_stream (getLView (two_outputs_state Container)))
       (output_props example_env ''change'' (getPreviousOrParentTNode (two_outputs_state Container)))
       = map Some ss"
    and s: "subscriptions (effects st')
              = subscriptions (effects (two_outputs_state Container)) @ map (\<lambda>s. (s, fn)) ss"
    and "fn = ListenerFn 1 \<or> type (getPreviousOrParentTNode (two_outputs_state Container)) = Element"
    by blast
  with ty have fn: "fn = ListenerFn 1" by simp
  from m p have "map Some ss = map Some [5, 6]" by (simp only:)
  then have "ss = [5, 6]" by (simp only: inj_map_eq_map [OF inj_Some])
  with fn s e0 have "subscriptions (effects (result_state (outputs_install Container)))
                    = [(5, ListenerFn 1), (6, ListenerFn 1)]"
    by (simp add: r)
  moreover have "or_empty (CLEANUP (getLView (result_state (outputs_install Container))))
       = [Ref (ListenerFn 1), Ref (Subscription 0), Ref (ListenerFn 1), Ref (Subscription 1)]"
    unfolding outputs_install_def by code_simp
  ultimately show ?thesis using ok by blast
qed

subsection \<open>Coalescing over successive calls\<close>

lemma listener_entry_at_append:
  "p + 1 < length tc \<Longrightarrow> listener_entry_at (tc @ xs) ev i p = listener_entry_at tc ev i p"
  by (simp add: listener_entry_at_def nth_append)

lemma listener_entry_at_length: "listener_entry_at tc ev i p \<Longrightarrow> p + 1 < length tc"
  by (simp add: listener_entry_at_def)

lemma arr_get_append: "q < length tc \<Longrightarrow> arr_get (tc @ xs) q = arr_get tc q"
  by (simp add: arr_get_def nth_append)

lemma arr_get_JNum_length: "arr_get tc q = JNum n \<Longrightarrow> q < length tc"
  by (simp add: arr_get_def split: if_splits)

lemma head_at_append:
  assumes "head_at tc lc ev i W"
  shows "head_at (tc @ xs) (lc @ ys) ev i W"
proof -
  from assms obtain k L where
    e: "listener_entry_at tc ev i (4 * k)"
    and n: "\<And>j. j < k \<Longrightarrow> \<not> listener_entry_at tc ev i (4 * j)"
    and a: "arr_get tc (4 * k + 2) = JNum (int L)" and L: "L < length lc" "lc ! L = Ref W"
    unfolding head_at_def by blast
  have len: "4 * k + 1 < length tc" using e by (rule listener_entry_at_length)
  have e': "listener_entry_at (tc @ xs) ev i (4 * k)"
    using e len by (simp add: listener_entry_at_append)
  have n': "\<not> listener_entry_at (tc @ xs) ev i (4 * j)" if "j < k" for j
  proof -
    from that len have "4 * j + 1 < length tc" by simp
    then show ?thesis using n [OF that] by (simp add: listener_entry_at_append)
  qed
  have a': "arr_get (tc @ xs) (4 * k + 2) = JNum (int L)"
    using a arr_get_JNum_length [OF a] by (simp add: arr_get_append)
  have L': "L < length (lc @ ys)" "(lc @ ys) ! L = Ref W"
    using L by (simp_all add: nth_append)
  from e' n' a' L' show ?thesis unfolding head_at_def by blast
qed

lemma head_at_lookup:
  assumes "head_at tc lc ev i W"
  shows "findExistingListener_loop tc (Some lc) ev i 0 = Inr (Ref W)"
proof -
  from assms obtain k L where
    e: "listener_entry_at tc ev i (4 * k)"
    and n: "\<And>j. j < k \<Longrightarrow> \<not> listener_entry_at tc ev i (4 * j)"
    and a: "arr_get tc (4 * k + 2) = JNum (int L)" and L: "L < length lc" "lc ! L = Ref W"
    unfolding head_at_def by blast
  have "findExistingListener_loop tc (Some lc) ev i (4 * 0) =
          (case Some lc of None \<Rightarrow> Inl TypeError
           | Some l \<Rightarrow> Inr (lookup_lCleanup l (arr_get tc (4 * k + 2))))"
    by (rule loop_first_match) (use e n in auto)
  then show ?thesis using a L by (simp add: lookup_lCleanup_def)
qed

lemma head_entry_lookup:
  assumes "head_entry st ev W"
  shows "findExistingListener (getLView st) ev (index (getPreviousOrParentTNode st)) = Inr (Ref W)"
proof -
  from assms obtain tc lc where
    "cleanup (TVIEW (getLView st)) = Some tc" "CLEANUP (getLView st) = Some lc"
    "head_at tc lc ev (index (getPreviousOrParentTNode st)) W"
    unfolding head_entry_def by blast
  then show ?thesis by (simp add: findExistingListener_def head_at_lookup)
qed

lemma chain_cong:
  "(\<And>c. c \<in> set cs \<Longrightarrow> nxt' c = nxt c) \<Longrightarrow> chain nxt' cur cs = chain nxt cur cs"
  by (induction cs arbitrary: cur) auto

lemma chain_attach:
  assumes c: "chain nxt (nxt W) cs" and h: "h \<notin> set cs" and W: "W \<notin> set cs" and ne: "h \<noteq> W"
  shows "chain ((nxt(h := nxt W))(W \<mapsto> h)) (((nxt(h := nxt W))(W \<mapsto> h)) W) (h # cs)"
proof -
  let ?n = "(nxt(h := nxt W))(W \<mapsto> h)"
  have same: "?n c = nxt c" if "c \<in> set cs" for c
    using that h W by auto
  have "chain ?n (nxt W) cs = chain nxt (nxt W) cs"
    by (rule chain_cong) (rule same)
  with c have "chain ?n (nxt W) cs" by simp
  moreover have "?n h = nxt W" using ne by simp
  ultimately show ?thesis by simp
qed

lemma listener_on_element:
  assumes el: "type (getPreviousOrParentTNode st) = Element"
    and pr: "isProceduralRenderer (RENDERER (getLView st))"
  shows "listenerInternal env ev h uc None None st =
     (case findExistingListener (getLView (with_cleanup None (init_tCleanup st))) ev
             (index (getPreviousOrParentTNode st)) of
        Inl err \<Rightarrow> Inl (err, with_cleanup None (init_tCleanup st))
      | Inr x \<Rightarrow>
          if x \<noteq> Null
          then (case attach_coalesced x h (with_cleanup None (init_tCleanup st)) of
                  Inl failure \<Rightarrow> Inl failure
                | Inr (fn, st2) \<Rightarrow> subscribeOutputs env ev fn st2)
          else subscribeOutputs env ev
                 (WrapListenerIn (allocated st) (getPreviousOrParentTNode st) h False)
                 (snd (listen_with_renderer (RENDERER (getLView st))
                         (TargetRef (RElement (index (getPreviousOrParentTNode st)))) ev h
                         (JNum (int (index (getPreviousOrParentTNode st))))
                         (length (or_empty (CLEANUP (getLView st))))
                         (with_cleanup None (init_tCleanup st)))))"
proof -
  have r: "effective_renderer None (init_tCleanup st) = RENDERER (getLView st)"
    by (simp add: effective_renderer_def)
  have t: "listen_target_of None (index (getPreviousOrParentTNode st))
             = TargetRef (RElement (index (getPreviousOrParentTNode st)))"
    by (simp add: listen_target_of_def)
  have g: "idxOrTargetGetter_of None (init_tCleanup st)
             = JNum (int (index (getPreviousOrParentTNode st)))"
    by (simp add: idxOrTargetGetter_of_def)
  show ?thesis
    using el pr
    by (simp add: listenerInternal_unfold addNativeListener_unfold r t g case_prod_beta
          split: sum.splits)
qed

lemma prepared_arrays:
  "cleanup (TVIEW (getLView st)) = Some tc \<Longrightarrow>
   cleanup (TVIEW (getLView (with_cleanup None (init_tCleanup st)))) = Some tc"
  "CLEANUP (getLView st) = Some lc \<Longrightarrow>
   CLEANUP (getLView (with_cleanup None (init_tCleanup st))) = Some lc"
  by (simp_all add: init_tCleanup_cleanup)

lemma subscribe_all_head_entry:
  assumes "head_entry st ev W"
  shows "head_entry (subscribe_all ev' fn ss (outputs_start env ev' st)) ev W"
proof -
  from assms obtain tc lc where
    t: "cleanup (TVIEW (getLView st)) = Some tc" and l: "CLEANUP (getLView st) = Some lc"
    and h: "head_at tc lc ev (index (getPreviousOrParentTNode st)) W"
    unfolding head_entry_def by blast
  let ?S = "outputs_start env ev' st"
  have "cleanup (TVIEW (getLView ?S)) = Some tc" using t by simp
  from subscribe_all_cleanup [OF this, of ev' fn ss] obtain xs where
    t': "cleanup (TVIEW (getLView (subscribe_all ev' fn ss ?S))) = Some (tc @ xs)" ..
  have "CLEANUP (getLView ?S) = Some lc" using l by (rule outputs_start_CLEANUP_Some)
  from subscribe_all_CLEANUP [OF this, of ev' fn ss]
  have l': "CLEANUP (getLView (subscribe_all ev' fn ss ?S))
              = Some (lc @ subscription_records fn (allocated ?S) (length ss))" .
  have "head_at (tc @ xs) (lc @ subscription_records fn (allocated ?S) (length ss)) ev
          (index (getPreviousOrParentTNode (subscribe_all ev' fn ss ?S))) W"
    using head_at_append [OF h] by simp
  with t' l' show ?thesis unfolding head_entry_def by blast
qed

text \<open>A later call for the same event and node: the handler joins the chain of \<open>W\<close>.\<close>

lemma next_install:
  assumes he: "head_entry st ev W"
    and el: "type (getPreviousOrParentTNode st) = Element"
    and pr: "isProceduralRenderer (RENDERER (getLView st))"
    and ok: "listenerInternal env ev h uc None None st = Inr st'"
  shows "head_entry st' ev W"
    and "ngNextListenerFn st' = ((ngNextListenerFn st)(h := ngNextListenerFn st W))(W \<mapsto> h)"
    and "native_effects (effects st') = native_effects (effects st)"
    and "type (getPreviousOrParentTNode st') = Element"
    and "RENDERER (getLView st') = RENDERER (getLView st)"
proof -
  let ?S0 = "with_cleanup None (init_tCleanup st)"
  let ?S1 = "?S0\<lparr>ngNextListenerFn :=
                   ((ngNextListenerFn ?S0)(h := ngNextListenerFn ?S0 W))(W \<mapsto> h)\<rparr>"
  from he obtain tc lc where
    t: "cleanup (TVIEW (getLView st)) = Some tc" and l: "CLEANUP (getLView st) = Some lc"
    and h: "head_at tc lc ev (index (getPreviousOrParentTNode st)) W"
    unfolding head_entry_def by blast
  have he0: "head_entry ?S0 ev W"
    unfolding head_entry_def using prepared_arrays(1) [OF t] prepared_arrays(2) [OF l] h
    by auto
  from head_entry_lookup [OF he0]
  have look: "findExistingListener (getLView ?S0) ev (index (getPreviousOrParentTNode st))
                = Inr (Ref W)" by simp
  have "listenerInternal env ev h uc None None st = subscribeOutputs env ev h ?S1"
    by (simp only: listener_on_element [OF el pr] look) (simp add: attach_coalesced_Ref)
  with ok have so: "subscribeOutputs env ev h ?S1 = Inr st'" by simp
  from subscribeOutputs_success [OF so] obtain ss where
    st': "st' = subscribe_all ev h ss (outputs_start env ev ?S1)" by blast
  have he1: "head_entry ?S1 ev W"
    using he0 unfolding head_entry_def by simp
  show "head_entry st' ev W"
    unfolding st' by (rule subscribe_all_head_entry [OF he1])
  show "ngNextListenerFn st' = ((ngNextListenerFn st)(h := ngNextListenerFn st W))(W \<mapsto> h)"
    unfolding st' by simp
  show "native_effects (effects st') = native_effects (effects st)"
    unfolding st' by simp
  show "type (getPreviousOrParentTNode st') = Element"
    unfolding st' using el by simp
  show "RENDERER (getLView st') = RENDERER (getLView st)"
    unfolding st' by simp
qed

lemma head_at_new_entry:
  assumes al: "length tc mod 4 = 0"
    and no: "\<And>k. \<not> listener_entry_at tc ev i (4 * k)"
  shows "head_at (tc @ [JStr ev, JNum (int i), JNum (int (length lc)), x])
           (lc @ [Ref W, y]) ev i W"
proof -
  from al have "4 dvd length tc" by presburger
  then obtain k where k: "length tc = 4 * k" by (rule dvdE)
  let ?tc = "tc @ [JStr ev, JNum (int i), JNum (int (length lc)), x]"
  have e: "listener_entry_at ?tc ev i (4 * k)"
    by (simp add: listener_entry_at_def nth_append k [symmetric])
  have n: "\<not> listener_entry_at ?tc ev i (4 * j)" if "j < k" for j
  proof -
    from that k have "4 * j + 1 < length tc" by simp
    then show ?thesis using no [of j] by (simp add: listener_entry_at_append)
  qed
  have a: "arr_get ?tc (4 * k + 2) = JNum (int (length lc))"
    by (simp add: arr_get_def nth_append k [symmetric])
  have L: "length lc < length (lc @ [Ref W, y])" "(lc @ [Ref W, y]) ! length lc = Ref W"
    by simp_all
  from e n a L show ?thesis unfolding head_at_def by blast
qed

lemma head_at_populated:
  assumes e: "listener_entry_at tc ev i (4 * k)"
    and n: "\<And>j. j < k \<Longrightarrow> \<not> listener_entry_at tc ev i (4 * j)"
    and a: "arr_get tc (4 * k + 2) = JNum (int (length lc))"
  shows "head_at tc (lc @ [Ref W, y]) ev i W"
proof -
  have L: "length lc < length (lc @ [Ref W, y])" "(lc @ [Ref W, y]) ! length lc = Ref W"
    by simp_all
  from e n a L show ?thesis unfolding head_at_def by blast
qed

text \<open>The first call for an event on a node that is ready: the wrapper is registered.\<close>

lemma first_install:
  assumes ready: "coalescing_ready st ev"
    and el: "type (getPreviousOrParentTNode st) = Element"
    and pr: "isProceduralRenderer (RENDERER (getLView st))"
    and ok: "listenerInternal env ev h uc None None st = Inr st'"
  shows "head_entry st' ev (WrapListenerIn (allocated st) (getPreviousOrParentTNode st) h False)"
    and "ngNextListenerFn st' = ngNextListenerFn st"
    and "native_effects (effects st') = native_effects (effects st) @
           [RendererListen (RENDERER (getLView st))
              (TargetRef (RElement (index (getPreviousOrParentTNode st)))) ev
              (WrapListenerIn (allocated st) (getPreviousOrParentTNode st) h False)]"
    and "type (getPreviousOrParentTNode st') = Element"
    and "RENDERER (getLView st') = RENDERER (getLView st)"
proof -
  let ?i = "index (getPreviousOrParentTNode st)"
  let ?W = "WrapListenerIn (allocated st) (getPreviousOrParentTNode st) h False"
  let ?tc = "or_empty (cleanup (TVIEW (getLView st)))"
  let ?lc = "or_empty (CLEANUP (getLView st))"
  let ?S0 = "with_cleanup None (init_tCleanup st)"
  let ?S1 = "snd (listen_with_renderer (RENDERER (getLView st)) (TargetRef (RElement ?i)) ev h
                    (JNum (int ?i)) (length ?lc) ?S0)"
  have lc0: "CLEANUP (getLView ?S0) = Some ?lc" by simp
  have lc1: "CLEANUP (getLView ?S1) = Some (?lc @ [Ref ?W, Ref (CleanupFn (Suc (allocated st)))])"
    by simp
  have "findExistingListener (getLView ?S0) ev ?i = Inr Null
        \<and> (\<exists>tc1. cleanup (TVIEW (getLView ?S1)) = Some tc1
              \<and> head_at tc1 (?lc @ [Ref ?W, Ref (CleanupFn (Suc (allocated st)))]) ev ?i ?W)"
  proof (cases "firstTemplatePass (TVIEW (getLView st))")
    case True
    with ready have al: "length ?tc mod 4 = 0"
      and no: "\<And>k. \<not> listener_entry_at ?tc ev ?i (4 * k)"
      by (simp_all add: coalescing_ready_def Let_def)
    have tc0: "cleanup (TVIEW (getLView ?S0)) = Some ?tc"
      using True by (simp add: init_tCleanup_cleanup)
    have "findExistingListener_loop ?tc (CLEANUP (getLView ?S0)) ev ?i (4 * 0) = Inr Null"
      by (rule loop_no_match) (rule no)
    then have look: "findExistingListener (getLView ?S0) ev ?i = Inr Null"
      by (simp add: findExistingListener_def init_tCleanup_cleanup True lc0)
    have tc1: "cleanup (TVIEW (getLView ?S1))
                 = Some (?tc @ [JStr ev, JNum (int ?i), JNum (int (length ?lc)),
                                JNum (int (length ?lc) + 1)])"
      using True by (simp add: listen_with_renderer_cleanup init_tCleanup_cleanup)
    from look tc1 head_at_new_entry [OF al no] show ?thesis by blast
  next
    case False
    with ready obtain k where
      e: "listener_entry_at ?tc ev ?i (4 * k)"
      and n: "\<And>j. j < k \<Longrightarrow> \<not> listener_entry_at ?tc ev ?i (4 * j)"
      and a: "arr_get ?tc (4 * k + 2) = JNum (int (length ?lc))"
      by (auto simp add: coalescing_ready_def Let_def)
    from e have "?tc \<noteq> []" by (auto simp add: listener_entry_at_def)
    then have some: "cleanup (TVIEW (getLView st)) = Some ?tc"
      by (cases "cleanup (TVIEW (getLView st))") simp_all
    have tc0: "cleanup (TVIEW (getLView ?S0)) = Some ?tc"
      using False some by (simp add: init_tCleanup_cleanup)
    have "findExistingListener_loop ?tc (Some ?lc) ev ?i (4 * 0) =
            (case Some ?lc of None \<Rightarrow> Inl TypeError
             | Some l \<Rightarrow> Inr (lookup_lCleanup l (arr_get ?tc (4 * k + 2))))"
      by (rule loop_first_match) (use e n in auto)
    moreover have "lookup_lCleanup ?lc (JNum (int (length ?lc))) = Null"
      by (simp add: lookup_lCleanup_def)
    ultimately have "findExistingListener_loop ?tc (Some ?lc) ev ?i 0 = Inr Null"
      by (simp only: a option.case mult_0_right)
    then have look: "findExistingListener (getLView ?S0) ev ?i = Inr Null"
      unfolding findExistingListener_def tc0 lc0 by simp
    have tc1: "cleanup (TVIEW (getLView ?S1)) = Some ?tc"
      using False some by (simp add: listen_with_renderer_cleanup init_tCleanup_cleanup)
    from look tc1 head_at_populated [OF e n a] show ?thesis by blast
  qed
  then obtain tc1 where look: "findExistingListener (getLView ?S0) ev ?i = Inr Null"
    and tc1: "cleanup (TVIEW (getLView ?S1)) = Some tc1"
    and h1: "head_at tc1 (?lc @ [Ref ?W, Ref (CleanupFn (Suc (allocated st)))]) ev ?i ?W"
    by blast
  have he1: "head_entry ?S1 ev ?W"
    unfolding head_entry_def using tc1 lc1 h1 by simp
  have "listenerInternal env ev h uc None None st = subscribeOutputs env ev ?W ?S1"
    by (simp only: listener_on_element [OF el pr] look) simp
  with ok have so: "subscribeOutputs env ev ?W ?S1 = Inr st'" by simp
  from subscribeOutputs_success [OF so] obtain ss where
    st': "st' = subscribe_all ev ?W ss (outputs_start env ev ?S1)" by blast
  show "head_entry st' ev ?W"
    unfolding st' by (rule subscribe_all_head_entry [OF he1])
  show "ngNextListenerFn st' = ngNextListenerFn st"
    unfolding st' by simp
  show "native_effects (effects st') = native_effects (effects st) @
           [RendererListen (RENDERER (getLView st)) (TargetRef (RElement ?i)) ev ?W]"
    unfolding st' by simp
  show "type (getPreviousOrParentTNode st') = Element"
    unfolding st' using el by simp
  show "RENDERER (getLView st') = RENDERER (getLView st)"
    unfolding st' by simp
qed

lemma install_rest:
  assumes "head_entry st ev W"
    and "\<And>n. W \<noteq> ListenerFn n"
    and "type (getPreviousOrParentTNode st) = Element"
    and "isProceduralRenderer (RENDERER (getLView st))"
    and "chain (ngNextListenerFn st) (ngNextListenerFn st W) cs"
    and "W \<notin> set cs"
    and "distinct ns"
    and "ListenerFn ` set ns \<inter> set cs = {}"
    and "install_all env ev (map ListenerFn ns) st = Inr st'"
  shows "chain (ngNextListenerFn st') (ngNextListenerFn st' W) (rev (map ListenerFn ns) @ cs)
         \<and> native_effects (effects st') = native_effects (effects st)"
  using assms
proof (induction ns arbitrary: st cs)
  case Nil
  then show ?case by simp
next
  case (Cons n ns)
  from Cons.prems(9) obtain st1 where
    one: "listenerInternal env ev (ListenerFn n) False None None st = Inr st1"
    and more: "install_all env ev (map ListenerFn ns) st1 = Inr st'"
    by (auto simp add: listener_def split: sum.splits)
  note step = next_install [OF Cons.prems(1) Cons.prems(3) Cons.prems(4) one]
  have fresh: "ListenerFn n \<notin> set cs" using Cons.prems(8) by auto
  have "chain (((ngNextListenerFn st)(ListenerFn n := ngNextListenerFn st W))(W \<mapsto> ListenerFn n))
          ((((ngNextListenerFn st)(ListenerFn n := ngNextListenerFn st W))(W \<mapsto> ListenerFn n)) W)
          (ListenerFn n # cs)"
    by (rule chain_attach [OF Cons.prems(5) fresh Cons.prems(6)]) (rule Cons.prems(2) [symmetric])
  then have c1: "chain (ngNextListenerFn st1) (ngNextListenerFn st1 W) (ListenerFn n # cs)"
    by (simp only: step(2))
  have w1: "W \<notin> set (ListenerFn n # cs)"
    using Cons.prems(6) Cons.prems(2) [of n] by simp
  have d1: "distinct ns" using Cons.prems(7) by simp
  have i1: "ListenerFn ` set ns \<inter> set (ListenerFn n # cs) = {}"
    using Cons.prems(7) Cons.prems(8) by auto
  have pr1: "isProceduralRenderer (RENDERER (getLView st1))"
    using Cons.prems(4) by (simp only: step(5))
  from Cons.IH [OF step(1) Cons.prems(2) step(4) pr1 c1 w1 d1 i1 more]
  show ?case by (simp add: step(3))
qed

text \<open>
  C2, amended: on an element with a procedural renderer and no target resolver, in a
  state that is ready for coalescing, binding N distinct handler functions for one event
  makes one native registration, of the wrapper of the first handler, and one dispatch of
  that wrapper returns after it has invoked every handler exactly once: the handler bound
  first comes first, then the others, the most recently bound first.
\<close>

theorem coalesced_dispatch_order:
  assumes ready: "coalescing_ready st ev"
    and el: "type (getPreviousOrParentTNode st) = Element"
    and pr: "isProceduralRenderer (RENDERER (getLView st))"
    and new: "ngNextListenerFn st
                (WrapListenerIn (allocated st) (getPreviousOrParentTNode st) (ListenerFn n) False)
              = None"
    and d: "distinct (n # ns)"
    and ok: "install_all env ev (map ListenerFn (n # ns)) st = Inr st'"
  shows "native_effects (effects st') = native_effects (effects st) @
           [RendererListen (RENDERER (getLView st))
              (TargetRef (RElement (index (getPreviousOrParentTNode st)))) ev
              (WrapListenerIn (allocated st) (getPreviousOrParentTNode st) (ListenerFn n) False)]
       \<and> (\<forall>e. \<exists>tr r.
             wrapListenerIn_markDirtyAndPreventDefault env st' (allocated st)
               (getPreviousOrParentTNode st) (ListenerFn n) False e = Some (tr, r)
             \<and> invocations tr = ListenerFn n # rev (map ListenerFn ns))"
proof -
  let ?W = "WrapListenerIn (allocated st) (getPreviousOrParentTNode st) (ListenerFn n) False"
  from ok obtain st1 where
    one: "listenerInternal env ev (ListenerFn n) False None None st = Inr st1"
    and more: "install_all env ev (map ListenerFn ns) st1 = Inr st'"
    by (auto simp add: listener_def split: sum.splits)
  note first = first_install [OF ready el pr one]
  have c0: "chain (ngNextListenerFn st1) (ngNextListenerFn st1 ?W) []"
    by (simp add: first(2) new)
  have pr1: "isProceduralRenderer (RENDERER (getLView st1))"
    using pr by (simp only: first(5))
  have "chain (ngNextListenerFn st') (ngNextListenerFn st' ?W) (rev (map ListenerFn ns) @ [])
         \<and> native_effects (effects st') = native_effects (effects st1)"
    by (rule install_rest [OF first(1) _ first(4) pr1 c0 _ _ _ more]) (use d in simp_all)
  then have c: "chain (ngNextListenerFn st') (ngNextListenerFn st' ?W) (rev (map ListenerFn ns))"
    and e: "native_effects (effects st') = native_effects (effects st1)"
    by simp_all
  have "\<exists>tr r.
          wrapListenerIn_markDirtyAndPreventDefault env st' (allocated st)
            (getPreviousOrParentTNode st) (ListenerFn n) False e = Some (tr, r)
          \<and> invocations tr = ListenerFn n # rev (map ListenerFn ns)" for e
    using wrapper_chain [OF c, of env e] by simp
  then show ?thesis using e first(3) by simp
qed

text \<open>
  C1 fails on the code: the template cleanup array starts with a 2-slot entry of a destroy
  hook, so the 4-slot entry of the first listener begins at index 2; the lookup for the
  second listener, which looks at indices 0 and 4 only, misses it and the renderer's
  \<open>listen\<close> is called a second time.
\<close>

theorem hook_entry_defeats_coalescing:
  "\<not> isl hooked_two
   \<and> cleanup (TVIEW (getLView (result_state hooked_two)))
       = Some [Ref (OtherObject 0), JNum 0, JStr ''click'', JNum 1, JNum 1, JNum 2,
               JStr ''click'', JNum 1, JNum 3, JNum 4]
   \<and> native_effects (effects (result_state hooked_two))
       = [RendererListen (ProceduralRenderer3 0) (TargetRef (RElement 1)) ''click''
            (WrapListenerIn 0 element_tNode (ListenerFn 1) False),
          RendererListen (ProceduralRenderer3 0) (TargetRef (RElement 1)) ''click''
            (WrapListenerIn 2 (element_tNode\<lparr>outputs := Some None\<rparr>) (ListenerFn 2) False)]"
  unfolding hooked_two_def by code_simp

text \<open>
  C2, as stated, fails: with H1 bound before H2, one registration is made and its
  dispatch invokes H1 first and H2 after it.
\<close>

theorem first_bound_handler_runs_first:
  "\<not> isl two_bound
   \<and> native_effects (effects (result_state two_bound))
       = [RendererListen (ProceduralRenderer3 0) (TargetRef (RElement 1)) ''click''
            (WrapListenerIn 0 element_tNode (ListenerFn 1) False)]
   \<and> wrapListenerIn_markDirtyAndPreventDefault example_env (result_state two_bound) 0
        element_tNode (ListenerFn 1) False 7
       = Some ([MarkViewDirty (ThisLView 0), Invoke (ListenerFn 1) 7, Invoke (ListenerFn 2) 7],
               Undefined)"
  unfolding two_bound_def by code_simp

theorem coalesced_dispatch_order_witness:
  "\<not> isl three_bound
   \<and> native_effects (effects (result_state three_bound))
       = [RendererListen (ProceduralRenderer3 0) (TargetRef (RElement 1)) ''click''
            (WrapListenerIn 0 element_tNode (ListenerFn 1) False)]
   \<and> (\<exists>tr r. wrapListenerIn_markDirtyAndPreventDefault example_env (result_state three_bound) 0
                 element_tNode (ListenerFn 1) False 7 = Some (tr, r)
              \<and> invocations tr = [ListenerFn 1, ListenerFn 3, ListenerFn 2])"
proof -
  have ok: "\<not> isl three_bound"
    unfolding three_bound_def by code_simp
  then obtain st' where r: "three_bound = Inr st'"
    by (metis sum.collapse(2))
  have ready: "coalescing_ready fresh_state ''click''"
    by (simp add: coalescing_ready_def fresh_state_def fresh_lView_def listener_entry_at_def)
  have el: "type (getPreviousOrParentTNode fresh_state) = Element"
    by (simp add: fresh_state_def element_tNode_def)
  have pr: "isProceduralRenderer (RENDERER (getLView fresh_state))"
    by (simp add: fresh_state_def fresh_lView_def)
  have new: "ngNextListenerFn fresh_state
               (WrapListenerIn (allocated fresh_state) (getPreviousOrParentTNode fresh_state)
                  (ListenerFn 1) False) = None"
    by (simp add: fresh_state_def)
  have d: "distinct [1, 2, 3 :: nat]" by simp
  have inst: "install_all example_env ''click'' (map ListenerFn [1, 2, 3]) fresh_state = Inr st'"
    using r by (simp add: three_bound_def)
  have v: "allocated fresh_state = 0" "getPreviousOrParentTNode fresh_state = element_tNode"
    "RENDERER (getLView fresh_state) = ProceduralRenderer3 0" "index element_tNode = 1"
    "native_effects (effects fresh_state) = []"
    by (simp_all add: fresh_state_def fresh_lView_def element_tNode_def)
  from coalesced_dispatch_order [OF ready el pr new d inst]
  have "native_effects (effects st')
          = [RendererListen (ProceduralRenderer3 0) (TargetRef (RElement 1)) ''click''
               (WrapListenerIn 0 element_tNode (ListenerFn 1) False)]
        \<and> (\<exists>tr r. wrapListenerIn_markDirtyAndPreventDefault example_env st' 0
                     element_tNode (ListenerFn 1) False 7 = Some (tr, r)
                  \<and> invocations tr = [ListenerFn 1, ListenerFn 3, ListenerFn 2])"
    by (simp add: v)
  with ok show ?thesis by (simp add: r)
qed

lemma self_loop_has_no_chain: "nxt f = Some f \<Longrightarrow> \<not> chain nxt (Some f) fs"
  by (induction fs) auto

text \<open>
  Why the handlers must be distinct function objects: binding the same function a second
  time onto the chain links it to itself, and the dispatch loop never ends.
\<close>

lemma same_function_bound_twice_never_returns:
  "\<not> isl twice_bound
   \<and> wrapListenerIn_markDirtyAndPreventDefault example_env (result_state twice_bound) 0
        element_tNode (ListenerFn 1) False e = None"
proof -
  have ok: "\<not> isl twice_bound"
    unfolding twice_bound_def by code_simp
  have 1: "ngNextListenerFn (result_state twice_bound)
             (WrapListenerIn 0 element_tNode (ListenerFn 1) False) = Some (ListenerFn 2)"
    unfolding twice_bound_def by code_simp
  have 2: "ngNextListenerFn (result_state twice_bound) (ListenerFn 2) = Some (ListenerFn 2)"
    unfolding twice_bound_def by code_simp
  have "wrapListenerIn_markDirtyAndPreventDefault example_env (result_state twice_bound) 0
          element_tNode (ListenerFn 1) False e \<noteq> Some res" for res
  proof
    assume "wrapListenerIn_markDirtyAndPreventDefault example_env (result_state twice_bound) 0
              element_tNode (ListenerFn 1) False e = Some res"
    from wrapper_returns [OF this] obtain fs where
      "chain (ngNextListenerFn (result_state twice_bound)) (Some (ListenerFn 2)) fs"
      unfolding 1 ..
    with self_loop_has_no_chain
           [of "ngNextListenerFn (result_state twice_bound)" "ListenerFn 2" fs] 2
    show False by blast
  qed
  then have "wrapListenerIn_markDirtyAndPreventDefault example_env (result_state twice_bound) 0
               element_tNode (ListenerFn 1) False e = None"
    by (cases "wrapListenerIn_markDirtyAndPreventDefault example_env (result_state twice_bound) 0
               element_tNode (ListenerFn 1) False e") auto
  with ok show ?thesis by blast
qed

end
